theory Spec2Isabelle
  imports Complex_Main
begin

section \<open>Errors and numpy helpers\<close>

text \<open>
  Every exception the modelled functions can raise is a constructor. \<open>ValueError\<close> is what
  numpy raises for a reduction over an empty array (\<open>np.min\<close>, \<open>np.max\<close>, \<open>np.argmin\<close>,
  \<open>np.argmax\<close>) and for a percentage out of range, and what \<open>multiprocessing.Pool\<close>
  raises for fewer than one process; \<open>IndexError\<close> is an index out of bounds;
  \<open>AssertionError\<close> is a failed \<open>assert\<close>; \<open>RuntimeError lo hi\<close> is the error of
  \<open>cluster_assemblies\<close> with the two numbers of its message; \<open>LibraryError\<close> stands for
  any exception raised inside a call into scipy or scikit-learn. Those library functions
  (\<open>pdist\<close>, \<open>squareform\<close>, \<open>linkage\<close>, \<open>fcluster\<close>, the scores, \<open>curve_fit\<close>, ...) are
  not part of the repository: they are parameters of the model, returning \<open>None\<close> when
  they raise.
\<close>

datatype error = ValueError | IndexError | AssertionError | RuntimeError nat nat | LibraryError

definition err_bind :: "error + 'a \<Rightarrow> ('a \<Rightarrow> error + 'b) \<Rightarrow> error + 'b" where
  "err_bind m f = (case m of Inl e \<Rightarrow> Inl e | Inr x \<Rightarrow> f x)"

definition lib_call :: "'a option \<Rightarrow> error + 'a" where
  "lib_call r = (case r of None \<Rightarrow> Inl LibraryError | Some x \<Rightarrow> Inr x)"

definition np_max :: "'a::linorder list \<Rightarrow> error + 'a" where
  "np_max xs = (if xs = [] then Inl ValueError else Inr (Max (set xs)))"

definition np_min :: "'a::linorder list \<Rightarrow> error + 'a" where
  "np_min xs = (if xs = [] then Inl ValueError else Inr (Min (set xs)))"

text \<open>\<open>np.argmax\<close> and \<open>np.argmin\<close> return the first index of the extremum.\<close>

definition np_argmax :: "'a::linorder list \<Rightarrow> error + nat" where
  "np_argmax xs =
     (if xs = [] then Inl ValueError else Inr (length (takeWhile (\<lambda>x. x \<noteq> Max (set xs)) xs)))"

definition np_argmin :: "'a::linorder list \<Rightarrow> error + nat" where
  "np_argmin xs =
     (if xs = [] then Inl ValueError else Inr (length (takeWhile (\<lambda>x. x \<noteq> Min (set xs)) xs)))"

text \<open>\<open>counts\<close> of \<open>np.unique(xs, return_counts=True)\<close>.\<close>

definition np_unique_counts :: "'a::linorder list \<Rightarrow> nat list" where
  "np_unique_counts xs = map (\<lambda>x. count_list xs x) (sort (remdups xs))"

fun np_cumsum_from :: "nat \<Rightarrow> nat list \<Rightarrow> nat list" where
  "np_cumsum_from acc [] = []"
| "np_cumsum_from acc (x # xs) = (acc + x) # np_cumsum_from (acc + x) xs"

definition np_cumsum :: "nat list \<Rightarrow> nat list" where
  "np_cumsum xs = np_cumsum_from 0 xs"

text \<open>The slice \<open>xs[i:j]\<close> for indices that are not negative.\<close>

definition slice :: "'a list \<Rightarrow> nat \<Rightarrow> nat \<Rightarrow> 'a list" where
  "slice xs i j = take (j - i) (drop i xs)"

text \<open>\<open>np.fill_diagonal(m, v)\<close> on a matrix given as the list of its rows.\<close>

definition fill_diagonal :: "'a \<Rightarrow> 'a list list \<Rightarrow> 'a list list" where
  "fill_diagonal v m = map (\<lambda>(r, row). row[r := v]) (enumerate 0 m)"

text \<open>Running a fallible function over a list, stopping at the first error.\<close>

fun err_map :: "('a \<Rightarrow> error + 'b) \<Rightarrow> 'a list \<Rightarrow> error + 'b list" where
  "err_map f [] = Inr []"
| "err_map f (x # xs) = err_bind (f x) (\<lambda>y. err_bind (err_map f xs) (\<lambda>ys. Inr (y # ys)))"

subsection \<open>Floating-point numbers\<close>

text \<open>
  A float is modelled as an exact number of an ordered field, or \<open>None\<close> for NaN where the
  code can produce or must handle NaN; rounding and infinities are not modelled. The
  arithmetic of numpy propagates NaN; every comparison with NaN is false, except \<open>!=\<close>,
  which is true.
\<close>

type_synonym 'a float = "'a option"

definition fl2 :: "('a \<Rightarrow> 'a \<Rightarrow> 'a) \<Rightarrow> 'a float \<Rightarrow> 'a float \<Rightarrow> 'a float" where
  "fl2 f a b = (case (a, b) of (Some x, Some y) \<Rightarrow> Some (f x y) | _ \<Rightarrow> None)"

definition fl_gt :: "'a::linorder float \<Rightarrow> 'a float \<Rightarrow> bool" where
  "fl_gt a b = (case (a, b) of (Some x, Some y) \<Rightarrow> y < x | _ \<Rightarrow> False)"

definition fl_ge :: "'a::linorder float \<Rightarrow> 'a float \<Rightarrow> bool" where
  "fl_ge a b = (case (a, b) of (Some x, Some y) \<Rightarrow> y \<le> x | _ \<Rightarrow> False)"

definition fl_ne :: "'a float \<Rightarrow> 'a float \<Rightarrow> bool" where
  "fl_ne a b = (case (a, b) of (Some x, Some y) \<Rightarrow> x \<noteq> y | _ \<Rightarrow> True)"

text \<open>\<open>np.mean\<close> of a list of numbers: NaN (with a warning) when the list is empty.\<close>

definition np_mean :: "'a::field list \<Rightarrow> 'a float" where
  "np_mean xs = (if xs = [] then None else Some (sum_list xs / of_nat (length xs)))"

text \<open>\<open>np.min\<close> and \<open>np.max\<close> of floats: NaN as soon as one entry is NaN.\<close>

definition fl_min :: "'a::linorder float list \<Rightarrow> error + 'a float" where
  "fl_min xs = (if xs = [] then Inl ValueError
                else if None \<in> set xs then Inr None
                else Inr (Some (Min (set (map the xs)))))"

definition fl_max :: "'a::linorder float list \<Rightarrow> error + 'a float" where
  "fl_max xs = (if xs = [] then Inl ValueError
                else if None \<in> set xs then Inr None
                else Inr (Some (Max (set (map the xs)))))"

text \<open>\<open>xs[idx]\<close> for a list of indices that are not negative.\<close>

definition take_idx :: "'a list \<Rightarrow> nat list \<Rightarrow> error + 'a list" where
  "take_idx xs idx = (if list_all (\<lambda>j. j < length xs) idx then Inr (map (\<lambda>j. xs ! j) idx)
                      else Inl IndexError)"

text \<open>\<open>m.shape[1]\<close> of a matrix with at least one row, given as the list of its rows.\<close>

definition ncols :: "'a list list \<Rightarrow> nat" where
  "ncols m = (case m of [] \<Rightarrow> 0 | r # _ \<Rightarrow> length r)"

section \<open>Synapse clusters: \<open>merge_clusters\<close>\<close>

text \<open>
  The boolean array \<open>clusters\<close> (rows: synapses, columns: raw clusters) is the list of its
  columns, each column a list of booleans indexed by the row.
\<close>

type_synonym bmatrix = "bool list list"

definition nrows :: "bmatrix \<Rightarrow> nat" where
  "nrows cs = (case cs of [] \<Rightarrow> 0 | c # _ \<Rightarrow> length c)"

definition wf_bmatrix :: "bmatrix \<Rightarrow> bool" where
  "wf_bmatrix cs = list_all (\<lambda>c. length c = nrows cs) cs"

definition count_true :: "bool list \<Rightarrow> nat" where
  "count_true c = length (filter (\<lambda>b. b) c)"

text \<open>\<open>np.unique(row_idx)\<close> of \<open>row_idx, col_idx = np.nonzero(clusters)\<close>.\<close>

definition nonzero_rows :: "bmatrix \<Rightarrow> nat list" where
  "nonzero_rows cs = filter (\<lambda>r. list_ex (\<lambda>c. c ! r) cs) [0..<nrows cs]"

text \<open>\<open>counts\<close> of \<open>np.unique(col_idx, return_counts=True)\<close>: one entry for every
  column that has a nonzero entry.\<close>

definition col_counts :: "bmatrix \<Rightarrow> nat list" where
  "col_counts cs = filter (\<lambda>n. 0 < n) (map count_true cs)"

text \<open>\<open>counts\<close> of \<open>np.unique(row_idx, return_counts=True)\<close>: for every row with a nonzero
  entry, the number of columns it is set in.\<close>

definition row_counts :: "bmatrix \<Rightarrow> nat list" where
  "row_counts cs = map (\<lambda>r. length (filter (\<lambda>c. c ! r) cs)) (nonzero_rows cs)"

text \<open>\<open>np.sum(clusters[:, [i]] & clusters[:, [j]], axis=0)\<close> for one partner column.\<close>

definition common :: "bool list \<Rightarrow> bool list \<Rightarrow> nat" where
  "common a b = count_true (map2 (\<lambda>x y. x \<and> y) a b)"

text \<open>\<open>idx_partners[matches]\<close>.\<close>

definition matched :: "nat \<Rightarrow> nat \<Rightarrow> bmatrix \<Rightarrow> nat list" where
  "matched nsyns_th i cs = filter (\<lambda>j. nsyns_th < common (cs ! i) (cs ! j)) [i + 1..<length cs]"

text \<open>\<open>np.any(clusters[:, sel], axis=1)\<close>.\<close>

definition any_cols :: "nat \<Rightarrow> bmatrix \<Rightarrow> bool list" where
  "any_cols n sel = map (\<lambda>r. list_ex (\<lambda>c. c ! r) sel) [0..<n]"

text \<open>One pass of the body of the \<open>while\<close> loop, without the \<open>i += 1\<close> that both
  branches end with.\<close>

definition merge_step :: "nat \<Rightarrow> nat \<Rightarrow> bmatrix \<Rightarrow> bmatrix" where
  "merge_step nsyns_th i cs =
     (let ms = matched nsyns_th i cs in
      if ms = [] then cs
      else let cs' = cs[i := any_cols (nrows cs) (cs ! i # map (\<lambda>j. cs ! j) ms)]
           in map (\<lambda>j. cs' ! j) (filter (\<lambda>j. j \<notin> set ms) [0..<length cs']))"

text \<open>The \<open>while i < (clusters.shape[1] - 1)\<close> loop; \<open>None\<close> is a loop that never ends.\<close>

partial_function (option) merge_while :: "nat \<Rightarrow> nat \<Rightarrow> bmatrix \<Rightarrow> bmatrix option" where
  "merge_while nsyns_th i cs =
     (if int i < int (length cs) - 1
      then merge_while nsyns_th (i + 1) (merge_step nsyns_th i cs)
      else Some cs)"

declare merge_while.simps [code]

text \<open>The \<open>for nsyns_th in np.arange(min_nsyns-1, 1, -1)\<close> loop over the list of the
  thresholds left, with its \<open>break\<close>.\<close>

fun merge_for :: "nat list \<Rightarrow> nat \<Rightarrow> bmatrix \<Rightarrow> bmatrix option" where
  "merge_for [] nsyns cs = Some cs"
| "merge_for (nsyns_th # ths) nsyns cs =
     (case merge_while nsyns_th 0 cs of
        None \<Rightarrow> None
      | Some cs' \<Rightarrow> if sum_list (row_counts cs') = nsyns then Some cs' else merge_for ths nsyns cs')"

definition merge_clusters :: "bmatrix \<Rightarrow> (error + bmatrix) option" where
  "merge_clusters clusters =
     (let nsyns = length (nonzero_rows clusters);
          counts = col_counts clusters
      in case np_min counts of
           Inl e \<Rightarrow> Some (Inl e)
         | Inr min_nsyns \<Rightarrow>
             (let nclusts_ub = nsyns div min_nsyns
              in case merge_for (rev [2..<min_nsyns]) nsyns clusters of
                   None \<Rightarrow> None
                 | Some out \<Rightarrow>
                     if length out \<le> nclusts_ub then Some (Inr out)
                     else Some (Inl AssertionError)))"

section \<open>Hierarchical clustering of time bins: \<open>cluster_sim_mat\<close>\<close>

text \<open>
  The scipy and scikit-learn functions the hierarchical clusterings call. A distance
  matrix is the list of its rows, with entries of type \<open>'d\<close>; the scores have type
  \<open>'s\<close>; \<open>squareform\<close> is split into its two directions; \<open>fcluster_maxclust lm n\<close> is
  \<open>fcluster(lm, n, criterion="maxclust")\<close>, the flat cluster label of every observation.
\<close>

record ('d, 's, 'lm) hier_lib =
  squareform_to_matrix :: "'d list \<Rightarrow> 'd list list option"
  squareform_to_vector :: "'d list list \<Rightarrow> 'd list option"
  linkage :: "'d list \<Rightarrow> string \<Rightarrow> 'lm option"
  fcluster_maxclust :: "'lm \<Rightarrow> nat \<Rightarrow> int list option"
  silhouette_score :: "'d list list \<Rightarrow> int list \<Rightarrow> 's option"
  davies_bouldin_score :: "'d list list \<Rightarrow> int list \<Rightarrow> 's option"
  silhouette_samples :: "'d list list \<Rightarrow> int list \<Rightarrow> 's list option"

text \<open>The last lines of \<open>cluster_sim_mat\<close> and of \<open>cluster_assemblies\<close>: the cut into \<open>n_clust\<close>
  flat clusters and the returned triple \<open>sim_matrix\<close>, \<open>clusters - 1\<close> and
  \<open>plotting = [linkage_matrix, silhouettes]\<close>.\<close>

definition cut_clusters ::
  "('d, 's, 'lm) hier_lib \<Rightarrow> 'lm \<Rightarrow> 'd list list \<Rightarrow> 'm \<Rightarrow> string
     \<Rightarrow> nat \<Rightarrow> error + ('m \<times> int list \<times> 'lm \<times> 's list option)" where
  "cut_clusters lib linkage_matrix dists sim_matrix n_method n_clust =
     err_bind (lib_call (fcluster_maxclust lib linkage_matrix n_clust)) (\<lambda>clusters.
     err_bind (if n_method = ''ss''
               then err_bind (lib_call (silhouette_samples lib dists clusters)) (\<lambda>s. Inr (Some s))
               else Inr None) (\<lambda>silhouettes.
       Inr (sim_matrix, map (\<lambda>c. c - 1) clusters, linkage_matrix, silhouettes)))"









section \<open>Density-peak clustering: \<open>calc_rho_delta\<close>, \<open>fit_gammas\<close>, \<open>db_clustering\<close>\<close>

text \<open>\<open>int(x)\<close> truncates towards zero.\<close>

definition py_int :: "'a::floor_ceiling \<Rightarrow> int" where
  "py_int x = (if 0 \<le> x then \<lfloor>x\<rfloor> else \<lceil>x\<rceil>)"

text \<open>The slice \<open>xs[0:k]\<close>, where a negative \<open>k\<close> counts from the end.\<close>

definition slice0 :: "'a list \<Rightarrow> int \<Rightarrow> 'a list" where
  "slice0 xs k = (if 0 \<le> k then take (nat k) xs else take (length xs - nat (- k)) xs)"

text \<open>
  One pass of the loop \<open>for i, rho in enumerate(rhos)\<close>, returning \<open>rho\<close> with
  \<open>deltas[i]\<close>. For a NaN \<open>rho\<close> the test \<open>rho != max_rho\<close> holds and
  \<open>np.where(rhos > rho)\<close> is empty, so that \<open>np.min\<close> raises \<open>ValueError\<close>: the
  first case of \<open>delta_at\<close> is this run of the first branch.
\<close>

definition delta_at ::
  "'a::linorder list list \<Rightarrow> 'a float list \<Rightarrow> 'a float \<Rightarrow> nat \<Rightarrow> error + ('a \<times> 'a)" where
  "delta_at dists rhos max_rho i =
     (case rhos ! i of
        None \<Rightarrow> Inl ValueError
      | Some rho \<Rightarrow>
          if fl_ne (Some rho) max_rho
          then let idx = filter (\<lambda>j. fl_gt (rhos ! j) (Some rho)) [0..<length rhos]
               in err_bind (take_idx (dists ! i) idx) (\<lambda>ds.
                  err_bind (np_min ds) (\<lambda>d. Inr (rho, d)))
          else err_bind (np_max (dists ! i)) (\<lambda>d. Inr (rho, d)))"

text \<open>
  \<open>calc_rho_delta\<close>, in three parts: the mean distances to the kept neighbours, the
  replacement of the zeros, and the densities with the loop over them. After the
  replacement no mean distance is zero, so that \<open>1 / mean_min_dists\<close> divides by a
  nonzero number or passes NaN on. (\<open>np.float\<close> is Python's \<open>float\<close>, as in numpy
  before version 1.24.)
\<close>

definition mean_min_dists_of :: "'a::{floor_ceiling} list list \<Rightarrow> 'a \<Rightarrow> 'a float list" where
  "mean_min_dists_of dists ratio_to_keep =
     (let n2keep = py_int (ratio_to_keep * of_nat (ncols dists))
      in map (\<lambda>row. np_mean (slice0 (sort row) n2keep)) dists)"

definition replace_zeros :: "'a::{linordered_field} float list \<Rightarrow> error + 'a float list" where
  "replace_zeros mean_min_dists =
     err_bind (fl_min (filter (\<lambda>m. m \<noteq> Some 0) mean_min_dists)) (\<lambda>floor_dist.
       Inr (map (\<lambda>m. if m = Some 0 then floor_dist else m) mean_min_dists))"

definition calc_rho_delta ::
  "'a::{floor_ceiling} list list \<Rightarrow> 'a \<Rightarrow> error + ('a list \<times> 'a list)" where
  "calc_rho_delta dists ratio_to_keep =
     err_bind (replace_zeros (mean_min_dists_of dists ratio_to_keep)) (\<lambda>mean_min_dists.
       let rhos = map (map_option (\<lambda>m. 1 / m)) mean_min_dists
       in err_bind (fl_max rhos) (\<lambda>max_rho.
          err_bind (err_map (delta_at dists rhos max_rho) [0..<length rhos]) (\<lambda>rds.
            Inr (map fst rds, map snd rds))))"

text \<open>\<open>_fn(x, m, yshift)\<close> at one index, on floats that may be NaN.\<close>

definition fn :: "nat \<Rightarrow> 'a::field float \<Rightarrow> 'a float \<Rightarrow> 'a float" where
  "fn x m yshift = fl2 (+) (fl2 (*) (Some (of_nat x)) m) yshift"

text \<open>
  \<open>fit_gammas\<close>. \<open>curve_fit\<close> returns the two parameters \<open>popt\<close> and the diagonal of
  \<open>pcov\<close>; \<open>t_ppf\<close> is \<open>t.ppf\<close> and \<open>np_sqrt\<close> is \<open>np.sqrt\<close>, both NaN outside
  their domain.
\<close>

definition fit_gammas ::
  "(nat list \<Rightarrow> 'a list \<Rightarrow> (('a \<times> 'a) \<times> ('a \<times> 'a)) option) \<Rightarrow> ('a \<Rightarrow> int \<Rightarrow> 'a float)
     \<Rightarrow> ('a \<Rightarrow> 'a float) \<Rightarrow> 'a::field list \<Rightarrow> 'a
     \<Rightarrow> error + (nat list \<times> ('a \<times> 'a) \<times> ('a float \<times> 'a float))" where
  "fit_gammas curve_fit t_ppf np_sqrt gammas alpha =
     (let tmp_idx = [0..<length gammas]
      in err_bind (lib_call (curve_fit tmp_idx gammas)) (\<lambda>(popt, pcov_diagonal).
           let dof = int (length gammas) - 2;
               t_val = t_ppf (1 - alpha / 2) dof;
               stds = (fl2 (*) t_val (np_sqrt (fst pcov_diagonal)),
                       fl2 (*) t_val (np_sqrt (snd pcov_diagonal)))
           in Inr (tmp_idx, popt, stds)))"

text \<open>The list \<open>plotting\<close> of \<open>db_clustering\<close>, one field for each of its entries.\<close>

record 'a db_plotting =
  plot_rhos :: "'a list"
  plot_deltas :: "'a list"
  plot_tmp_idx :: "nat list"
  plot_sorted_gammas :: "'a list"
  plot_fit :: "'a float list"
  plot_lCI :: "'a float list"
  plot_uCI :: "'a float list"
  plot_centroid_idx :: "nat list"

text \<open>\<open>clusters[centroid_idx] = np.arange(len(centroid_idx))\<close>.\<close>

definition label_centroids :: "nat list \<Rightarrow> int list \<Rightarrow> int list" where
  "label_centroids centroid_idx clusters =
     fold (\<lambda>(k, c) cl. cl[c := int k]) (enumerate 0 centroid_idx) clusters"

text \<open>
  \<open>db_clustering\<close> up to the line that finds the centroids. \<open>pdist_square matrix\<close>
  is \<open>squareform(pdist(matrix, metric="euclidean"))\<close>. \<open>np.argsort\<close> takes the sort
  kind from its first letter, a stable merge sort here; \<open>fit_gammas\<close> is called with its
  default \<open>alpha=0.001\<close>. The result is \<open>dists\<close> with its diagonal filled and the entries
  of \<open>plotting\<close>.
\<close>

definition db_centroids ::
  "('x \<Rightarrow> 'a list list option)
     \<Rightarrow> (nat list \<Rightarrow> 'a list \<Rightarrow> (('a \<times> 'a) \<times> ('a \<times> 'a)) option) \<Rightarrow> ('a \<Rightarrow> int \<Rightarrow> 'a float)
     \<Rightarrow> ('a \<Rightarrow> 'a float) \<Rightarrow> 'x \<Rightarrow> 'a::floor_ceiling
     \<Rightarrow> error + ('a list list \<times> 'a db_plotting)" where
  "db_centroids pdist_square curve_fit t_ppf np_sqrt matrix ratio_to_keep =
     err_bind (lib_call (pdist_square matrix)) (\<lambda>dists0.
     err_bind (np_max (concat dists0)) (\<lambda>mx.
       let dists = fill_diagonal mx dists0
       in err_bind (calc_rho_delta dists ratio_to_keep) (\<lambda>(rhos, deltas).
            let gammas = map2 (*) rhos deltas;
                sort_idx = rev (sort_key (\<lambda>i. gammas ! i) [0..<length gammas]);
                sorted_gammas = map (\<lambda>i. gammas ! i) sort_idx
            in err_bind (fit_gammas curve_fit t_ppf np_sqrt sorted_gammas (1 / 1000))
                 (\<lambda>(tmp_idx, popt, stds).
            let fit = map (\<lambda>x. fn x (Some (fst popt)) (Some (snd popt))) tmp_idx;
                lCI = map (\<lambda>x. fn x (fl2 (-) (Some (fst popt)) (fst stds))
                                     (fl2 (-) (Some (snd popt)) (snd stds))) tmp_idx;
                uCI = map (\<lambda>x. fn x (fl2 (+) (Some (fst popt)) (fst stds))
                                     (fl2 (+) (Some (snd popt)) (snd stds))) tmp_idx;
                centroid_idx = filter (\<lambda>i. fl_ge (Some (gammas ! i)) (uCI ! i))
                                 [0..<length gammas]
            in Inr (dists, \<lparr>plot_rhos = rhos, plot_deltas = deltas,
                            plot_tmp_idx = tmp_idx, plot_sorted_gammas = sorted_gammas,
                            plot_fit = fit, plot_lCI = lCI, plot_uCI = uCI,
                            plot_centroid_idx = centroid_idx\<rparr>)))))"

text \<open>\<open>db_clustering\<close>: the \<open>assert\<close> on the number of centroids, then every bin gets
  the position of its nearest centroid and every centroid its own position.\<close>

definition db_clustering ::
  "('x \<Rightarrow> 'a list list option)
     \<Rightarrow> (nat list \<Rightarrow> 'a list \<Rightarrow> (('a \<times> 'a) \<times> ('a \<times> 'a)) option) \<Rightarrow> ('a \<Rightarrow> int \<Rightarrow> 'a float)
     \<Rightarrow> ('a \<Rightarrow> 'a float) \<Rightarrow> 'x \<Rightarrow> 'a::floor_ceiling
     \<Rightarrow> error + (int list \<times> 'a db_plotting)" where
  "db_clustering pdist_square curve_fit t_ppf np_sqrt matrix ratio_to_keep =
     err_bind (db_centroids pdist_square curve_fit t_ppf np_sqrt matrix ratio_to_keep)
       (\<lambda>(dists, plotting).
          if \<not> length (plot_centroid_idx plotting) \<le> 20 then Inl AssertionError
          else err_bind (err_map (\<lambda>row. err_bind (take_idx row (plot_centroid_idx plotting))
                                           np_argmin) dists) (\<lambda>clusters.
                 Inr (label_centroids (plot_centroid_idx plotting) (map int clusters),
                      plotting)))"

text \<open>\<open>gammas = rhos * deltas\<close>, from the entries of \<open>plotting\<close>.\<close>

definition gammas_of :: "'a::times db_plotting \<Rightarrow> 'a list" where
  "gammas_of plotting = map2 (*) (plot_rhos plotting) (plot_deltas plotting)"

text \<open>
  An example: eight time bins on a line, given as a matrix with one column, and the same
  bins in another order. The Euclidean distance of two points on a line is the absolute
  value of their difference, which \<open>line_pdist_square\<close> computes for every matrix with
  one column. With \<open>ratio_to_keep = 0.125\<close> one neighbour is kept, and the \<open>gamma\<close>
  values are those of \<open>example_sorted_gammas\<close> in both orders of the bins.

  The library functions are entered at the arguments of this run only. The line is the
  least-squares line through the points \<open>(x, example_sorted_gammas[x])\<close>, with slope
  \<open>(n Sxy - Sx Sy) / (n Sxx - Sx Sx)\<close> and intercept \<open>(Sy - slope Sx) / n\<close>, and the
  variances are \<open>s2 n / (n Sxx - Sx Sx)\<close> and \<open>s2 Sxx / (n Sxx - Sx Sx)\<close> for the
  residual sum of squares over \<open>n - 2\<close> as \<open>s2\<close>: the values to which \<open>curve_fit\<close>
  converges, here about -4.047619 and 28.729167 with variances 0.111105 and 1.944341. The
  quantile \<open>t.ppf(0.9995, 6)\<close> is 5.958816 and the square roots of the two variances
  are 0.333324 and 1.394396, all three rounded to six decimals. The upper bound of the
  run is then 37.04, 34.98, 32.92, 30.85, 28.79, 26.73, 24.67, 22.61 at the indices 0 to 7,
  and every comparison of a \<open>gamma\<close> with it is decided by a margin above 3.
\<close>

definition line_pdist_square :: "rat list list \<Rightarrow> rat list list option" where
  "line_pdist_square X =
     (if X \<noteq> [] \<and> list_all (\<lambda>p. length p = 1) X
      then Some (map (\<lambda>p. map (\<lambda>q. \<bar>hd p - hd q\<bar>) X) X) else None)"

definition example_bins :: "rat list list" where
  "example_bins = [[23], [27], [34], [37], [55], [58], [4], [2]]"

definition example_bins_reordered :: "rat list list" where
  "example_bins_reordered = [[4], [2], [23], [27], [34], [37], [55], [58]]"

definition example_sorted_gammas :: "rat list" where
  "example_sorted_gammas = [28, 28, 18, 17, 11, 10, 11 / 4, 7 / 4]"

definition example_curve_fit ::
  "nat list \<Rightarrow> rat list \<Rightarrow> ((rat \<times> rat) \<times> (rat \<times> rat)) option" where
  "example_curve_fit xs ys =
     (if xs = [0..<8] \<and> ys = example_sorted_gammas
      then Some ((- (85 / 21), 1379 / 48), (18815 / 169344, 94075 / 48384)) else None)"

definition example_t_ppf :: "rat \<Rightarrow> int \<Rightarrow> rat float" where
  "example_t_ppf q dof =
     (if q = 1999 / 2000 \<and> dof = 6 then Some (5958816 / 1000000) else None)"

definition example_sqrt :: "rat \<Rightarrow> rat float" where
  "example_sqrt x =
     (if x = 18815 / 169344 then Some (333324 / 1000000)
      else if x = 94075 / 48384 then Some (1394396 / 1000000) else None)"

section \<open>Core cells and assemblies: correlations, \<open>sign_corr_ths\<close>, \<open>within_cluster_correlations\<close>\<close>

text \<open>
  \<open>pairwise_correlation_X\<close> and \<open>pairwise_correlation_XY\<close>. The correlation distances
  come from scikit-learn (\<open>pairwise_distances(x, metric="correlation", ...)\<close>) and scipy
  (\<open>cdist(x, y, metric="correlation")\<close>), as matrices of floats that may be NaN.
\<close>

definition replace_nan :: "'a::zero float list list \<Rightarrow> 'a float list list" where
  "replace_nan corrs = map (map (\<lambda>c. if c = None then Some 0 else c)) corrs"

definition pairwise_correlation_X ::
  "('x \<Rightarrow> 'a float list list option) \<Rightarrow> 'x \<Rightarrow> error + 'a::field float list list" where
  "pairwise_correlation_X pairwise_distances x =
     err_bind (lib_call (pairwise_distances x)) (\<lambda>dists.
       let corrs = map (map (\<lambda>d. fl2 (-) (Some 1) d)) dists
       in Inr (replace_nan corrs))"

definition pairwise_correlation_XY ::
  "('x \<Rightarrow> 'y \<Rightarrow> 'a float list list option) \<Rightarrow> 'x \<Rightarrow> 'y \<Rightarrow> error + 'a::field float list list" where
  "pairwise_correlation_XY cdist x y =
     err_bind (lib_call (cdist x y)) (\<lambda>dists.
       let corrs = map (map (\<lambda>d. fl2 (-) (Some 1) d)) dists
       in Inr (replace_nan corrs))"

text \<open>
  \<open>_convert_clusters\<close>: one row for each label that occurs, the row of label \<open>i\<close>
  being found by indexing with \<open>i\<close> (a negative \<open>i\<close> counts from the end, an \<open>i\<close> out
  of bounds raises \<open>IndexError\<close>).
\<close>

fun set_rows :: "int list \<Rightarrow> int list \<Rightarrow> int list list \<Rightarrow> error + int list list" where
  "set_rows clusters [] sparse_clusters = Inr sparse_clusters"
| "set_rows clusters (i # uniq) sparse_clusters =
     (let k = int (length sparse_clusters)
      in if i < - k \<or> k \<le> i then Inl IndexError
         else let r = nat (if i < 0 then k + i else i)
              in set_rows clusters uniq
                   (sparse_clusters[r := map2 (\<lambda>l old. if l = i then 1 else old)
                                            clusters (sparse_clusters ! r)]))"

definition convert_clusters :: "int list \<Rightarrow> error + int list list" where
  "convert_clusters clusters =
     (let uniq = sort (remdups clusters)
      in set_rows clusters uniq (replicate (length uniq) (replicate (length clusters) 0)))"

definition corr_spike_matrix_clusters ::
  "('a list list \<Rightarrow> int list list \<Rightarrow> 'a float list list option) \<Rightarrow> 'a::field list list
     \<Rightarrow> int list list \<Rightarrow> error + 'a float list list" where
  "corr_spike_matrix_clusters cdist spike_matrix sparse_clusters =
     pairwise_correlation_XY cdist spike_matrix sparse_clusters"

text \<open>\<open>corr_shuffled_spike_matrix_clusters\<close>, with the permutation that
  \<open>np.random.permutation\<close> draws as an argument.\<close>

definition corr_shuffled_spike_matrix_clusters ::
  "('a list list \<Rightarrow> int list list \<Rightarrow> 'a float list list option) \<Rightarrow> nat list
     \<Rightarrow> 'a::field list list \<Rightarrow> int list list \<Rightarrow> error + 'a float list list" where
  "corr_shuffled_spike_matrix_clusters cdist perm spike_matrix sparse_clusters =
     (let spike_matrix_rnd = map (\<lambda>row. map (\<lambda>j. row ! j) perm) spike_matrix
      in corr_spike_matrix_clusters cdist spike_matrix_rnd sparse_clusters)"

text \<open>
  \<open>sign_corr_ths\<close>. \<open>perms k\<close> is the permutation drawn by the \<open>k\<close>-th of the \<open>N\<close>
  tasks of the pool; \<open>Pool\<close> raises \<open>ValueError\<close> for fewer than one process;
  \<open>np.percentile\<close> raises \<open>ValueError\<close> for a percentage outside 0 to 100, and
  \<open>percentile vs q\<close> is its value on the one-dimensional array \<open>vs\<close> otherwise. The
  result has one threshold for each (neuron, cluster) cell.
\<close>

definition sign_corr_ths ::
  "('a list list \<Rightarrow> int list list \<Rightarrow> 'a float list list option) \<Rightarrow> ('a float list \<Rightarrow> 'a \<Rightarrow> 'a float)
     \<Rightarrow> int \<Rightarrow> (nat \<Rightarrow> nat list) \<Rightarrow> 'a::linordered_field list list \<Rightarrow> int list list \<Rightarrow> 'a \<Rightarrow> nat
     \<Rightarrow> error + 'a float list list" where
  "sign_corr_ths cdist percentile cpu_count perms spike_matrix sparse_clusters th_pct N =
     (let n = (if int N < cpu_count - 1 then int N else cpu_count - 1)
      in if n < 1 then Inl ValueError
         else err_bind (err_map (\<lambda>k. corr_shuffled_spike_matrix_clusters cdist (perms k)
                                        spike_matrix sparse_clusters) [0..<N]) (\<lambda>corrs.
                if th_pct < 0 \<or> 100 < th_pct then Inl ValueError
                else Inr (map (\<lambda>g. map (\<lambda>c. percentile (map (\<lambda>m. m ! g ! c) corrs) th_pct)
                                        [0..<ncols (hd corrs)])
                            [0..<length (hd corrs)])))"

text \<open>
  The lines of \<open>detect_assemblies\<close> that find the core cells; the result is
  \<open>core_cell_idx\<close>. \<open>detect_assemblies\<close> calls \<open>sign_corr_ths\<close> with its default
  \<open>N=1000\<close>; the model keeps the number \<open>N\<close> of surrogate datasets an argument, so that
  what is proved holds for every \<open>N\<close>. The comparison \<open>corrs > corr_ths\<close> is between
  two matrices of one shape, both coming from \<open>cdist\<close> on matrices of the same shapes.
\<close>

definition core_cells ::
  "('a list list \<Rightarrow> int list list \<Rightarrow> 'a float list list option) \<Rightarrow> ('a float list \<Rightarrow> 'a \<Rightarrow> 'a float)
     \<Rightarrow> int \<Rightarrow> (nat \<Rightarrow> nat list) \<Rightarrow> 'a::linordered_field list list \<Rightarrow> int list \<Rightarrow> 'a \<Rightarrow> nat
     \<Rightarrow> error + int list list" where
  "core_cells cdist percentile cpu_count perms spike_matrix clusters core_cell_th_pct N =
     err_bind (convert_clusters clusters) (\<lambda>sparse_clusters.
     err_bind (corr_spike_matrix_clusters cdist spike_matrix sparse_clusters) (\<lambda>corrs.
     err_bind (sign_corr_ths cdist percentile cpu_count perms spike_matrix sparse_clusters
                 core_cell_th_pct N) (\<lambda>corr_ths.
       Inr (map2 (\<lambda>row ths. map2 (\<lambda>c th. if fl_gt c th then 1 else 0) row ths)
              corrs corr_ths))))"

text \<open>\<open>np.nanmean\<close> of the entries of an array: the mean of those that are not NaN, and
  NaN when there is none.\<close>

definition np_nanmean :: "'a::field float list \<Rightarrow> 'a float" where
  "np_nanmean xs = np_mean (map the (filter (\<lambda>x. x \<noteq> None) xs))"

text \<open>\<open>corrs[np.ix_(idx, idx)]\<close>.\<close>

definition ix :: "'a list list \<Rightarrow> nat list \<Rightarrow> error + 'a list list" where
  "ix m idx = err_bind (take_idx m idx) (\<lambda>rows. err_map (\<lambda>row. take_idx row idx) rows)"

text \<open>\<open>np.where(core_cell_idx[:, i] == 1)[0]\<close>: the core cells of cluster \<open>i\<close>.\<close>

definition core_idx :: "int list list \<Rightarrow> nat \<Rightarrow> nat list" where
  "core_idx core_cell_idx i = filter (\<lambda>g. core_cell_idx ! g ! i = 1) [0..<length core_cell_idx]"

text \<open>\<open>within_cluster_correlations\<close>: the loop over the clusters, then the function.\<close>

fun within_loop ::
  "'a::linordered_field float list list \<Rightarrow> 'a float \<Rightarrow> int list list \<Rightarrow> nat list \<Rightarrow> error + nat list" where
  "within_loop corrs mean_corr core_cell_idx [] = Inr []"
| "within_loop corrs mean_corr core_cell_idx (i # is) =
     (let idx = core_idx core_cell_idx i
      in err_bind (ix corrs idx) (\<lambda>sub.
         err_bind (within_loop corrs mean_corr core_cell_idx is) (\<lambda>assembly_idx.
           Inr (if fl_gt (np_nanmean (concat sub)) mean_corr then i # assembly_idx
                else assembly_idx))))"

definition within_cluster_correlations ::
  "('x \<Rightarrow> 'a::linordered_field float list list option) \<Rightarrow> 'x \<Rightarrow> int list list
     \<Rightarrow> error + nat list" where
  "within_cluster_correlations pairwise_distances spike_matrix core_cell_idx =
     err_bind (pairwise_correlation_X pairwise_distances spike_matrix) (\<lambda>corrs0.
       let corrs = fill_diagonal None corrs0;
           mean_corr = np_nanmean (concat corrs)
       in within_loop corrs mean_corr core_cell_idx [0..<ncols core_cell_idx])"

text \<open>An assembly: the gids of its core cells and its index, the pair of the cluster and
  the seed.\<close>

record assembly =
  assembly_gids :: "int list"
  assembly_index :: "nat \<times> int"

text \<open>
  The body of the loop of \<open>detect_assemblies\<close> for one seed, up to the list of the
  assemblies (\<open>N\<close> as in \<open>core_cells\<close>); \<open>gids[core_cell_idx[:, i] == 1]\<close> raises
  \<open>IndexError\<close> when the mask has not the length of \<open>gids\<close>.
\<close>

definition detect_assemblies_seed ::
  "('a list list \<Rightarrow> int list list \<Rightarrow> 'a float list list option) \<Rightarrow> ('a float list \<Rightarrow> 'a \<Rightarrow> 'a float)
     \<Rightarrow> ('a list list \<Rightarrow> 'a float list list option)
     \<Rightarrow> int \<Rightarrow> (nat \<Rightarrow> nat list) \<Rightarrow> int \<Rightarrow> 'a::linordered_field list list \<Rightarrow> int list \<Rightarrow> int list
     \<Rightarrow> 'a \<Rightarrow> nat \<Rightarrow> error + assembly list" where
  "detect_assemblies_seed cdist percentile pairwise_distances cpu_count perms seed spike_matrix
       gids clusters core_cell_th_pct N =
     err_bind (core_cells cdist percentile cpu_count perms spike_matrix clusters
                 core_cell_th_pct N) (\<lambda>core_cell_idx.
     err_bind (within_cluster_correlations pairwise_distances spike_matrix core_cell_idx)
       (\<lambda>assembly_idx.
          if assembly_idx \<noteq> [] \<and> length core_cell_idx \<noteq> length gids then Inl IndexError
          else Inr (map (\<lambda>i. \<lparr>assembly_gids = map (\<lambda>g. gids ! g) (core_idx core_cell_idx i),
                                 assembly_index = (i, seed)\<rparr>) assembly_idx)))"

text \<open>The mean pairwise correlation among the cells \<open>idx\<close>, pairs of a cell with itself
  left out, and that of the whole matrix; NaN when there is no pair.\<close>

definition mean_pairwise :: "'a::field float list list \<Rightarrow> nat list \<Rightarrow> 'a float" where
  "mean_pairwise corrs idx =
     np_mean (concat (map (\<lambda>p. concat (map (\<lambda>q. if p \<noteq> q then [the (corrs ! p ! q)] else []) idx))
                        idx))"

definition mean_all_pairs :: "'a::field float list list \<Rightarrow> 'a float" where
  "mean_all_pairs corrs =
     np_mean (concat (map (\<lambda>p. concat (map (\<lambda>q. if p \<noteq> q then [the (corrs ! p ! q)] else [])
                                          [0..<length (corrs ! p)]))
                        [0..<length corrs]))"

text \<open>
  An example: four neurons over four time bins, the bins in the clusters 0, 1, 0, 1. The
  neurons 0 and 1 fire in the bins of cluster 0, neuron 2 in those of cluster 1, and
  neuron 3 in every bin: its row is constant and its correlation distances are NaN. Every
  surrogate is drawn with the permutation that swaps the last two bins, under which the
  three other neurons have correlation 0 with both clusters. The example functions agree
  with the library at the arguments used (the percentile of a constant list is the
  constant).
\<close>

definition example_spike_matrix :: "rat list list" where
  "example_spike_matrix = [[1, 0, 1, 0], [1, 0, 1, 0], [0, 1, 0, 1], [1, 1, 1, 1]]"

definition example_cdist :: "rat list list \<Rightarrow> int list list \<Rightarrow> rat float list list option" where
  "example_cdist x y =
     (if y = [[1, 0, 1, 0], [0, 1, 0, 1]] then
        if x = example_spike_matrix
          then Some [[Some 0, Some 2], [Some 0, Some 2], [Some 2, Some 0], [None, None]]
        else if x = [[1, 0, 0, 1], [1, 0, 0, 1], [0, 1, 1, 0], [1, 1, 1, 1]]
          then Some [[Some 1, Some 1], [Some 1, Some 1], [Some 1, Some 1], [None, None]]
        else None
      else None)"

definition example_pairwise_distances :: "rat list list \<Rightarrow> rat float list list option" where
  "example_pairwise_distances x =
     (if x = example_spike_matrix
      then Some [[Some 0, Some 0, Some 2, None], [Some 0, Some 0, Some 2, None],
                 [Some 2, Some 2, Some 0, None], [None, None, None, None]]
      else None)"

definition example_percentile :: "rat float list \<Rightarrow> rat \<Rightarrow> rat float" where
  "example_percentile vs q = (if vs \<noteq> [] \<and> list_all (\<lambda>v. v = hd vs) vs then hd vs else None)"

section \<open>Consensus clustering of assemblies: \<open>cluster_assemblies\<close>\<close>

text \<open>\<open>_check_seed_separation\<close>: \<open>n_assemblies_cum\<close> holds the bounds of the blocks of
  assemblies of one seed.\<close>

definition check_seed_separation :: "int list \<Rightarrow> nat list \<Rightarrow> bool" where
  "check_seed_separation clusters n_assemblies_cum =
     list_all (\<lambda>(i, j). \<not> list_ex (\<lambda>c. 1 < c) (np_unique_counts (slice clusters i j)))
       (zip (butlast n_assemblies_cum) (tl n_assemblies_cum))"

text \<open>\<open>dists[i:j, i:j] = v\<close>.\<close>

definition set_block :: "nat \<Rightarrow> nat \<Rightarrow> 'a \<Rightarrow> 'a list list \<Rightarrow> 'a list list" where
  "set_block i j v m =
     map (\<lambda>(r, row). if i \<le> r \<and> r < j
                      then map (\<lambda>(c, x). if i \<le> c \<and> c < j then v else x) (enumerate 0 row)
                      else row)
       (enumerate 0 m)"

text \<open>\<open>_update_block_diagonal_dists\<close> changes \<open>dists\<close> in place and returns its condensed
  form: the model returns both, since the caller goes on with the changed \<open>dists\<close>.\<close>

definition update_block_diagonal_dists ::
  "('a::linordered_field, 's, 'lm) hier_lib \<Rightarrow> 'a list list \<Rightarrow> nat list
     \<Rightarrow> error + ('a list list \<times> 'a list)" where
  "update_block_diagonal_dists lib dists n_assemblies_cum =
     err_bind (np_max (concat dists)) (\<lambda>mx.
       let inf_dist = mx * 5;
           dists1 = fold (\<lambda>(i, j). set_block i j inf_dist)
                      (zip (butlast n_assemblies_cum) (tl n_assemblies_cum)) dists;
           dists2 = fill_diagonal 0 dists1
       in err_bind (lib_call (squareform_to_vector lib dists2)) (\<lambda>cond. Inr (dists2, cond)))"

text \<open>The loop \<open>for n in range(min_n_clusts, max_n_clusts+1)\<close> over the list of the
  counts left; it returns \<open>valid_nclusts\<close>, \<open>silhouette_scores\<close> and \<open>DB_scores\<close>.\<close>

fun n_clust_loop ::
  "('d, 's, 'lm) hier_lib \<Rightarrow> 'lm \<Rightarrow> 'd list list \<Rightarrow> nat list \<Rightarrow> nat list
     \<Rightarrow> error + (nat list \<times> 's list \<times> 's list)" where
  "n_clust_loop lib linkage_matrix dists n_assemblies_cum [] = Inr ([], [], [])"
| "n_clust_loop lib linkage_matrix dists n_assemblies_cum (n # ns) =
     err_bind (lib_call (fcluster_maxclust lib linkage_matrix n)) (\<lambda>clusters.
       if check_seed_separation clusters n_assemblies_cum
       then err_bind (lib_call (silhouette_score lib dists clusters)) (\<lambda>ss.
            err_bind (lib_call (davies_bouldin_score lib dists clusters)) (\<lambda>db.
            err_bind (n_clust_loop lib linkage_matrix dists n_assemblies_cum ns)
              (\<lambda>(valid_nclusts, silhouette_scores, DB_scores).
                 Inr (n # valid_nclusts, ss # silhouette_scores, db # DB_scores))))
       else n_clust_loop lib linkage_matrix dists n_assemblies_cum ns)"

text \<open>The choice of \<open>n_clust\<close> after the loop, with the \<open>assert\<close> and the \<open>raise\<close>.\<close>

definition choose_n_clust ::
  "string \<Rightarrow> nat list \<Rightarrow> 'a::linorder list \<Rightarrow> 'a list \<Rightarrow> nat \<Rightarrow> nat \<Rightarrow> error + nat" where
  "choose_n_clust n_method valid_nclusts silhouette_scores DB_scores min_n_clusts max_n_clusts =
     (if valid_nclusts \<noteq> [] then
        if n_method \<notin> set [''min'', ''ss'', ''DB''] then Inl AssertionError
        else if n_method = ''min'' then Inr (valid_nclusts ! 0)
        else if n_method = ''ss''
          then err_bind (np_argmax silhouette_scores) (\<lambda>k. Inr (valid_nclusts ! k))
        else err_bind (np_argmin DB_scores) (\<lambda>k. Inr (valid_nclusts ! k))
      else Inl (RuntimeError min_n_clusts max_n_clusts))"

text \<open>The lines of \<open>cluster_assemblies\<close> before the loop: distances, similarity matrix,
  block bounds, the range of cluster counts and the linkage.\<close>

definition cluster_assemblies_setup ::
  "('a::linordered_field, 's, 'lm) hier_lib \<Rightarrow> ('x \<Rightarrow> string \<Rightarrow> 'a list option) \<Rightarrow> 'x
     \<Rightarrow> nat list \<Rightarrow> string \<Rightarrow> string \<Rightarrow> bool
     \<Rightarrow> error + ('a list list \<times> 'a list list \<times> nat list \<times> nat \<times> nat \<times> 'lm)" where
  "cluster_assemblies_setup lib pdist assemblies n_assemblies distance_metric linkage_method
       update_block_diagonals =
     err_bind (lib_call (pdist assemblies distance_metric)) (\<lambda>cond_dists0.
     err_bind (lib_call (squareform_to_matrix lib cond_dists0)) (\<lambda>dists0.
       let sim_matrix = map (map (\<lambda>d. 1 - d)) dists0;
           n_assemblies_cum = 0 # np_cumsum n_assemblies
       in err_bind (if update_block_diagonals
                    then update_block_diagonal_dists lib dists0 n_assemblies_cum
                    else Inr (dists0, cond_dists0)) (\<lambda>(dists, cond_dists).
          err_bind (np_max n_assemblies) (\<lambda>min_n_clusts.
            let max_n_clusts = (if 20 \<le> last n_assemblies_cum then 20 else last n_assemblies_cum)
            in err_bind (lib_call (linkage lib cond_dists linkage_method)) (\<lambda>linkage_matrix.
                 Inr (sim_matrix, dists, n_assemblies_cum, min_n_clusts, max_n_clusts,
                      linkage_matrix))))))"

text \<open>The search for \<open>n_clust\<close>: the loop over the range of cluster counts and the
  choice among the valid ones.\<close>

definition cluster_assemblies_select ::
  "('d, 's::linorder, 'lm) hier_lib \<Rightarrow> 'lm \<Rightarrow> 'd list list \<Rightarrow> nat list \<Rightarrow> string
     \<Rightarrow> nat \<Rightarrow> nat \<Rightarrow> error + nat" where
  "cluster_assemblies_select lib linkage_matrix dists n_assemblies_cum n_method
       min_n_clusts max_n_clusts =
     err_bind (n_clust_loop lib linkage_matrix dists n_assemblies_cum
                 [min_n_clusts..<max_n_clusts + 1])
       (\<lambda>(valid_nclusts, silhouette_scores, DB_scores).
          choose_n_clust n_method valid_nclusts silhouette_scores DB_scores
            min_n_clusts max_n_clusts)"

text \<open>\<open>cluster_assemblies\<close>: the lines before the loop, the search and the cut.\<close>

definition cluster_assemblies ::
  "('a::linordered_field, 's::linorder, 'lm) hier_lib \<Rightarrow> ('x \<Rightarrow> string \<Rightarrow> 'a list option)
     \<Rightarrow> 'x \<Rightarrow> nat list \<Rightarrow> string \<Rightarrow> string \<Rightarrow> bool \<Rightarrow> string
     \<Rightarrow> error + ('a list list \<times> int list \<times> 'lm \<times> 's list option)" where
  "cluster_assemblies lib pdist assemblies n_assemblies distance_metric linkage_method
       update_block_diagonals n_method =
     err_bind (cluster_assemblies_setup lib pdist assemblies n_assemblies distance_metric
                 linkage_method update_block_diagonals)
       (\<lambda>(sim_matrix, dists, n_assemblies_cum, min_n_clusts, max_n_clusts, linkage_matrix).
     err_bind (cluster_assemblies_select lib linkage_matrix dists n_assemblies_cum n_method
                 min_n_clusts max_n_clusts) (\<lambda>n_clust.
       cut_clusters lib linkage_matrix dists sim_matrix n_method n_clust))"

text \<open>The seed an assembly comes from: the rows of \<open>assemblies\<close> are the assemblies of
  seed 0, then those of seed 1, and so on, \<open>n_assemblies\<close> giving how many each seed has.\<close>

fun seed_of :: "nat list \<Rightarrow> nat \<Rightarrow> nat option" where
  "seed_of [] p = None"
| "seed_of (n # ns) p = (if p < n then Some 0 else map_option Suc (seed_of ns (p - n)))"

text \<open>An example library for four assemblies of two seeds (two each), under the Hamming
  distance: assemblies 0 and 2 are equal and so are 1 and 3, at distance 1 from the other
  pair. The dendrogram joins the equal pairs at height 0, so every cut into at least two
  clusters gives the same two clusters, which have silhouette score 1 and Davies-Bouldin
  index 0; scikit-learn rejects a labelling with one label.\<close>

definition example_assemblies :: "bool list list" where
  "example_assemblies = [[True, True, False, False], [False, False, True, True],
                         [True, True, False, False], [False, False, True, True]]"

definition example_pdist :: "bool list list \<Rightarrow> string \<Rightarrow> rat list option" where
  "example_pdist X metric =
     (if X = example_assemblies \<and> metric = ''hamming'' then Some [1, 0, 1, 1, 0, 1] else None)"

definition example_lib :: "(rat, rat, unit) hier_lib" where
  "example_lib = \<lparr>
     squareform_to_matrix = (\<lambda>v. if v = [1, 0, 1, 1, 0, 1]
        then Some [[0, 1, 0, 1], [1, 0, 1, 0], [0, 1, 0, 1], [1, 0, 1, 0]] else None),
     squareform_to_vector = (\<lambda>m. if m = [[0, 5, 0, 1], [5, 0, 1, 0], [0, 1, 0, 5], [1, 0, 5, 0]]
        then Some [5, 0, 1, 1, 0, 5] else None),
     linkage = (\<lambda>v method. if method = ''average'' then Some () else None),
     fcluster_maxclust = (\<lambda>lm n. if 2 \<le> n then Some [1, 2, 1, 2] else Some [1, 1, 1, 1]),
     silhouette_score = (\<lambda>d cl. if cl = [1, 2, 1, 2] then Some 1 else None),
     davies_bouldin_score = (\<lambda>d cl. if cl = [1, 2, 1, 2] then Some 0 else None),
     silhouette_samples = (\<lambda>d cl. if cl = [1, 2, 1, 2] then Some [1, 1, 1, 1] else None) \<rparr>"

text \<open>A cluster count satisfies the seed-separation constraint when the cut into that
  many flat clusters passes \<open>_check_seed_separation\<close>.\<close>

definition valid_n :: "('d, 's, 'lm) hier_lib \<Rightarrow> 'lm \<Rightarrow> nat list \<Rightarrow> nat \<Rightarrow> bool" where
  "valid_n lib linkage_matrix n_assemblies_cum n =
     (case fcluster_maxclust lib linkage_matrix n of
        None \<Rightarrow> False
      | Some clusters \<Rightarrow> check_seed_separation clusters n_assemblies_cum)"

section \<open>Basic facts about the helpers\<close>

lemma err_bind_Inr:
  "err_bind m f = Inr y \<longleftrightarrow> (\<exists>x. m = Inr x \<and> f x = Inr y)"
  by (cases m) (simp_all add: err_bind_def)

lemma err_bind_Inl:
  "err_bind m f = Inl e \<longleftrightarrow> m = Inl e \<or> (\<exists>x. m = Inr x \<and> f x = Inl e)"
  by (cases m) (simp_all add: err_bind_def)

lemma lib_call_Inr: "lib_call r = Inr x \<longleftrightarrow> r = Some x"
  by (cases r) (simp_all add: lib_call_def)

lemma lib_call_Inl: "lib_call r = Inl e \<longleftrightarrow> r = None \<and> e = LibraryError"
  by (cases r) (auto simp: lib_call_def)

lemma length_takeWhile_less:
  "x \<in> set xs \<Longrightarrow> \<not> P x \<Longrightarrow> length (takeWhile P xs) < length xs"
  by (induction xs) auto

lemma np_argmax_less: "np_argmax xs = Inr k \<Longrightarrow> k < length xs"
proof -
  assume h: "np_argmax xs = Inr k"
  then have ne: "xs \<noteq> []" and k: "k = length (takeWhile (\<lambda>x. x \<noteq> Max (set xs)) xs)"
    by (auto simp: np_argmax_def split: if_splits)
  have "Max (set xs) \<in> set xs"
    using ne by simp
  then have "length (takeWhile (\<lambda>x. x \<noteq> Max (set xs)) xs) < length xs"
    by (rule length_takeWhile_less) simp
  with k show ?thesis by simp
qed

lemma np_argmin_less: "np_argmin xs = Inr k \<Longrightarrow> k < length xs"
proof -
  assume h: "np_argmin xs = Inr k"
  then have ne: "xs \<noteq> []" and k: "k = length (takeWhile (\<lambda>x. x \<noteq> Min (set xs)) xs)"
    by (auto simp: np_argmin_def split: if_splits)
  have "Min (set xs) \<in> set xs"
    using ne by simp
  then have "length (takeWhile (\<lambda>x. x \<noteq> Min (set xs)) xs) < length xs"
    by (rule length_takeWhile_less) simp
  with k show ?thesis by simp
qed

lemma err_map_Inr:
  assumes "err_map f xs = Inr ys"
  shows "length ys = length xs \<and> (\<forall>i < length xs. f (xs ! i) = Inr (ys ! i))"
  using assms
proof (induction xs arbitrary: ys)
  case Nil
  then show ?case by simp
next
  case (Cons x xs)
  from Cons.prems obtain y ys' where y: "f x = Inr y" "err_map f xs = Inr ys'" "ys = y # ys'"
    by (auto simp: err_bind_Inr)
  from Cons.IH [OF y(2)] y(1,3) show ?case
    by (auto simp: nth_Cons split: nat.splits)
qed

lemma err_map_Inl:
  "err_map f xs = Inl e \<Longrightarrow> \<exists>x \<in> set xs. f x = Inl e"
  by (induction xs) (auto simp: err_bind_Inl)



lemma case_Inr_pair2:
  assumes "case (A, B) of (Inr (c, pl), Inr (d, pl')) \<Rightarrow> P c pl d pl' | _ \<Rightarrow> False"
  obtains c pl d pl' where "A = Inr (c, pl)" "B = Inr (d, pl')" "P c pl d pl'"
  using assms by (cases A; cases B) (auto split: prod.splits)

section \<open>Properties of \<open>merge_clusters\<close>\<close>

lemma length_merge_step: "length (merge_step th i cs) \<le> length cs"
proof -
  have "length (filter (\<lambda>j. j \<notin> set ms) [0..<length cs]) \<le> length cs" for ms
    using length_filter_le [of "\<lambda>j. j \<notin> set ms" "[0..<length cs]"] by simp
  then show ?thesis
    by (simp add: merge_step_def Let_def)
qed

lemma merge_while_invariant:
  assumes "P cs"
    and "\<And>j ds. P ds \<Longrightarrow> j + 1 < length ds \<Longrightarrow> P (merge_step th j ds)"
  shows "\<exists>out. merge_while th i cs = Some out \<and> P out"
  using assms(1)
proof (induction "length cs - i" arbitrary: i cs rule: less_induct)
  case less
  show ?case
  proof (cases "i + 1 < length cs")
    case True
    let ?cs = "merge_step th i cs"
    have "length ?cs - (i + 1) < length cs - i"
      using True length_merge_step [of th i cs] by linarith
    moreover have "P ?cs"
      using less.prems True by (rule assms(2))
    ultimately obtain out where "merge_while th (i + 1) ?cs = Some out" "P out"
      using less.hyps by blast
    with True show ?thesis
      by (subst merge_while.simps) auto
  next
    case False
    with less.prems show ?thesis
      by (subst merge_while.simps) auto
  qed
qed

lemma merge_for_invariant:
  assumes "P cs"
    and "\<And>th j ds. P ds \<Longrightarrow> j + 1 < length ds \<Longrightarrow> P (merge_step th j ds)"
  shows "\<exists>out. merge_for ths nsyns cs = Some out \<and> P out"
  using assms(1)
proof (induction ths arbitrary: cs)
  case Nil
  then show ?case by simp
next
  case (Cons th ths)
  obtain cs' where w: "merge_while th 0 cs = Some cs'" "P cs'"
    using merge_while_invariant [of P cs th 0] Cons.prems assms(2) by blast
  from Cons.IH [OF w(2)] w show ?case
    by auto
qed

lemma col_counts_nonempty:
  assumes "\<exists>c \<in> set cs. True \<in> set c"
  shows "col_counts cs \<noteq> []"
proof -
  from assms obtain c where c: "c \<in> set cs" "True \<in> set c" by blast
  then have "filter (\<lambda>b. b) c \<noteq> []"
    by (auto simp: filter_empty_conv)
  then have "0 < count_true c"
    by (simp add: count_true_def)
  with c(1) show ?thesis
    by (auto simp: col_counts_def filter_empty_conv)
qed

lemma count_true_nth: "count_true c = length (filter (\<lambda>r. c ! r) [0..<length c])"
proof -
  have "filter (\<lambda>b. b) (map (\<lambda>r. c ! r) [0..<length c]) = map (\<lambda>r. c ! r) (filter (\<lambda>r. c ! r) [0..<length c])"
    by (simp add: filter_map comp_def)
  then have "length (filter (\<lambda>b. b) (map (\<lambda>r. c ! r) [0..<length c])) = length (filter (\<lambda>r. c ! r) [0..<length c])"
    by simp
  then show ?thesis
    by (simp add: count_true_def map_nth)
qed

lemma filter_or_le:
  "length (filter (\<lambda>r. P r \<or> Q r) xs) \<le> length (filter P xs) + length (filter Q xs)"
  by (induction xs) auto

lemma covered_le_total:
  "length (filter (\<lambda>r. list_ex (\<lambda>c. c ! r) cs) [0..<n])
     \<le> sum_list (map (\<lambda>c. length (filter (\<lambda>r. c ! r) [0..<n])) cs)"
proof (induction cs)
  case Nil
  then show ?case by simp
next
  case (Cons c cs)
  have "length (filter (\<lambda>r. list_ex (\<lambda>c. c ! r) (c # cs)) [0..<n])
          \<le> length (filter (\<lambda>r. c ! r) [0..<n]) + length (filter (\<lambda>r. list_ex (\<lambda>c. c ! r) cs) [0..<n])"
    using filter_or_le [of "\<lambda>r. c ! r" "\<lambda>r. list_ex (\<lambda>c. c ! r) cs" "[0..<n]"] by simp
  with Cons.IH show ?case by simp
qed

lemma nsyns_le_total:
  assumes "wf_bmatrix cs"
  shows "length (nonzero_rows cs) \<le> sum_list (map count_true cs)"
proof -
  have eq: "map count_true cs = map (\<lambda>c. length (filter (\<lambda>r. c ! r) [0..<nrows cs])) cs"
    using assms by (auto simp: wf_bmatrix_def list_all_iff count_true_nth)
  have "length (nonzero_rows cs) \<le> sum_list (map (\<lambda>c. length (filter (\<lambda>r. c ! r) [0..<nrows cs])) cs)"
    using covered_le_total [of cs "nrows cs"] by (simp add: nonzero_rows_def)
  then show ?thesis
    by (simp only: eq)
qed

lemma sum_row_counts_all:
  "sum_list (row_counts cs) = (\<Sum>r\<leftarrow>[0..<nrows cs]. length (filter (\<lambda>c. c ! r) cs))"
proof -
  have "(\<Sum>r\<leftarrow>filter P xs. length (filter (\<lambda>c. c ! r) cs)) = (\<Sum>r\<leftarrow>xs. length (filter (\<lambda>c. c ! r) cs))"
    if "\<And>r. r \<in> set xs \<Longrightarrow> \<not> P r \<Longrightarrow> filter (\<lambda>c. c ! r) cs = []" for P and xs :: "nat list"
    using that by (induction xs) auto
  moreover have "filter (\<lambda>c. c ! r) cs = []" if "\<not> list_ex (\<lambda>c. c ! r) cs" for r
    using that by (auto simp: filter_empty_conv list_ex_iff)
  ultimately show ?thesis
    by (simp add: row_counts_def nonzero_rows_def)
qed

lemma double_count:
  "(\<Sum>r\<leftarrow>xs. length (filter (\<lambda>c. c ! r) cs)) = (\<Sum>c\<leftarrow>cs. length (filter (\<lambda>r. c ! r) xs))"
proof (induction cs)
  case Nil
  then show ?case by simp
next
  case (Cons c cs)
  have "(\<Sum>r\<leftarrow>xs. length (filter (\<lambda>c. c ! r) (c # cs)))
          = (\<Sum>r\<leftarrow>xs. (if c ! r then 1 else 0) + length (filter (\<lambda>c. c ! r) cs))"
    by (rule arg_cong [where f = sum_list]) auto
  also have "\<dots> = (\<Sum>r\<leftarrow>xs. if c ! r then 1 else 0) + (\<Sum>r\<leftarrow>xs. length (filter (\<lambda>c. c ! r) cs))"
    by (simp add: sum_list_addf)
  also have "(\<Sum>r\<leftarrow>xs. if c ! r then 1 else 0) = length (filter (\<lambda>r. c ! r) xs)"
    by (induction xs) auto
  finally show ?case
    using Cons.IH by simp
qed

lemma sum_row_counts:
  assumes "wf_bmatrix cs"
  shows "sum_list (row_counts cs) = sum_list (map count_true cs)"
proof -
  have eq: "map count_true cs = map (\<lambda>c. length (filter (\<lambda>r. c ! r) [0..<nrows cs])) cs"
    using assms by (auto simp: wf_bmatrix_def list_all_iff count_true_nth)
  have "sum_list (row_counts cs) = sum_list (map (\<lambda>c. length (filter (\<lambda>r. c ! r) [0..<nrows cs])) cs)"
    by (simp add: sum_row_counts_all double_count)
  then show ?thesis
    by (simp only: eq)
qed

lemma nrows_eqI: "cs \<noteq> [] \<Longrightarrow> \<forall>c \<in> set cs. length c = n \<Longrightarrow> nrows cs = n"
  by (cases cs) (auto simp: nrows_def)

lemma set_matched: "set (matched th i cs) \<subseteq> {i + 1..<length cs}"
  by (auto simp: matched_def)

lemma merge_step_preserves:
  assumes wf: "wf_bmatrix cs" and i: "i + 1 < length cs"
  shows "wf_bmatrix (merge_step th i cs) \<and> nrows (merge_step th i cs) = nrows cs \<and>
         nonzero_rows (merge_step th i cs) = nonzero_rows cs"
proof (cases "matched th i cs = []")
  case True
  with wf show ?thesis by (simp add: merge_step_def)
next
  case False
  define ms where "ms = matched th i cs"
  define merged where "merged = any_cols (nrows cs) (cs ! i # map (\<lambda>j. cs ! j) ms)"
  define cs' where "cs' = cs[i := merged]"
  define keep where "keep = filter (\<lambda>j. j \<notin> set ms) [0..<length cs']"
  define out where "out = map (\<lambda>j. cs' ! j) keep"
  have out: "merge_step th i cs = out"
    using False by (simp add: merge_step_def Let_def out_def keep_def cs'_def merged_def ms_def)
  have ms: "set ms \<subseteq> {i + 1..<length cs}"
    unfolding ms_def by (rule set_matched)
  have len: "\<forall>c \<in> set cs. length c = nrows cs"
    using wf by (simp add: wf_bmatrix_def list_all_iff)
  have lm: "length merged = nrows cs"
    by (simp add: merged_def any_cols_def)
  have merged_nth: "merged ! r \<longleftrightarrow> cs ! i ! r \<or> (\<exists>j \<in> set ms. cs ! j ! r)" if "r < nrows cs" for r
    using that by (auto simp: merged_def any_cols_def list_ex_iff)
  have set_out: "set out = {cs' ! j | j. j < length cs \<and> j \<notin> set ms}"
    by (auto simp: out_def keep_def cs'_def)
  have i_keep: "i < length cs" "i \<notin> set ms"
    using i ms by auto
  have "merged \<in> set out"
    unfolding set_out using i_keep by (auto simp: cs'_def intro!: exI [of _ i])
  then have ne: "out \<noteq> []" by auto
  have len_out: "\<forall>c \<in> set out. length c = nrows cs"
  proof
    fix c assume "c \<in> set out"
    then obtain j where j: "j < length cs" "c = cs' ! j"
      unfolding set_out by blast
    show "length c = nrows cs"
    proof (cases "j = i")
      case True
      with j lm show ?thesis by (simp add: cs'_def)
    next
      case False
      with j have "c = cs ! j" by (simp add: cs'_def)
      with j(1) len show ?thesis by simp
    qed
  qed
  from ne len_out have nr: "nrows out = nrows cs"
    by (rule nrows_eqI)
  with len_out have wf_out: "wf_bmatrix out"
    by (simp add: wf_bmatrix_def list_all_iff)
  have ex_eq: "list_ex (\<lambda>c. c ! r) out \<longleftrightarrow> list_ex (\<lambda>c. c ! r) cs" if r: "r < nrows cs" for r
  proof
    assume "list_ex (\<lambda>c. c ! r) out"
    then obtain j where j: "j < length cs" "j \<notin> set ms" "cs' ! j ! r"
      unfolding list_ex_iff set_out by blast
    show "list_ex (\<lambda>c. c ! r) cs"
    proof (cases "j = i")
      case True
      with j i_keep have "merged ! r" by (simp add: cs'_def)
      with merged_nth [OF r] have "cs ! i ! r \<or> (\<exists>j \<in> set ms. cs ! j ! r)" by simp
      then obtain k where k: "k = i \<or> k \<in> set ms" "cs ! k ! r" by blast
      from k(1) i_keep ms have "k < length cs" by auto
      then have "cs ! k \<in> set cs" by simp
      with k(2) show ?thesis
        unfolding list_ex_iff by blast
    next
      case False
      with j have "cs ! j ! r" by (simp add: cs'_def)
      with j(1) show ?thesis
        unfolding list_ex_iff using nth_mem by blast
    qed
  next
    assume "list_ex (\<lambda>c. c ! r) cs"
    then obtain c where "c \<in> set cs" "c ! r"
      unfolding list_ex_iff by blast
    then obtain j where j: "j < length cs" "cs ! j ! r"
      by (auto simp: in_set_conv_nth)
    show "list_ex (\<lambda>c. c ! r) out"
    proof (cases "j = i \<or> j \<in> set ms")
      case True
      with j have "merged ! r"
        using merged_nth [OF r] by auto
      with \<open>merged \<in> set out\<close> show ?thesis
        unfolding list_ex_iff by blast
    next
      case False
      with j have "cs' ! j \<in> set out" "cs' ! j ! r"
        unfolding set_out by (auto simp: cs'_def intro!: exI [of _ j])
      then show ?thesis
        unfolding list_ex_iff by blast
    qed
  qed
  have "nonzero_rows out = nonzero_rows cs"
    unfolding nonzero_rows_def nr by (rule filter_cong) (auto simp: ex_eq)
  with wf_out nr out show ?thesis by simp
qed

subsection \<open>Termination of the merge\<close>

text \<open>
  Claim C10. \<open>merge_clusters\<close> terminates for every boolean matrix with at least one
  nonzero entry: a pass of the body of the \<open>while\<close> loop never adds a column while the
  scanned index goes from \<open>i\<close> to \<open>i + 1\<close>, so the \<open>while\<close> loop returns from every
  threshold, index and matrix; the \<open>for\<close> loop over the finite list of thresholds returns;
  and the operation reaches its final \<open>assert\<close>, which either lets the merged matrix through
  or raises \<open>AssertionError\<close>.
\<close>

theorem merge_clusters_terminates:
  assumes "\<exists>c \<in> set clusters. True \<in> set c"
  shows "(\<forall>th i cs. length (merge_step th i cs) \<le> length cs) \<and>
         (\<forall>th i cs. \<exists>out. merge_while th i cs = Some out) \<and>
         (\<forall>ths nsyns cs. \<exists>out. merge_for ths nsyns cs = Some out) \<and>
         ((\<exists>out. merge_clusters clusters = Some (Inr out)) \<or>
          merge_clusters clusters = Some (Inl AssertionError))"
proof -
  have w: "\<exists>out. merge_while th i cs = Some out" for th i cs
    using merge_while_invariant [of "\<lambda>_. True" cs th i] by simp
  have f: "\<exists>out. merge_for ths nsyns cs = Some out" for ths nsyns cs
    using merge_for_invariant [of "\<lambda>_. True" cs ths nsyns] by simp
  have "col_counts clusters \<noteq> []"
    using assms by (rule col_counts_nonempty)
  then have "(\<exists>out. merge_clusters clusters = Some (Inr out)) \<or>
             merge_clusters clusters = Some (Inl AssertionError)"
    using f [of "rev [2..<Min (set (col_counts clusters))]" "length (nonzero_rows clusters)" clusters]
    by (auto simp: merge_clusters_def np_min_def Let_def split: if_splits)
  with w f length_merge_step show ?thesis
    by blast
qed

text \<open>Three raw clusters over six synapses, merged into one in two passes of the
  \<open>for\<close> loop (thresholds 3 and 2).\<close>

theorem merge_clusters_terminates_witness:
  "(\<exists>c \<in> set [[True, True, True, True, False, False],
                 [False, True, True, True, True, True],
                 [False, True, True, True, True, True]]. True \<in> set c) \<and>
   merge_clusters [[True, True, True, True, False, False],
                   [False, True, True, True, True, True],
                   [False, True, True, True, True, True]]
     = Some (Inr [[True, True, True, True, True, True]])"
proof -
  let ?X = "[[True, True, True, True, False, False],
             [False, True, True, True, True, True],
             [False, True, True, True, True, True]]"
  have h: "\<exists>c \<in> set ?X. True \<in> set c"
    by simp
  have r: "merge_clusters ?X = Some (Inr [[True, True, True, True, True, True]])"
    by code_simp
  from merge_clusters_terminates [OF h] h r show ?thesis
    by simp
qed

subsection \<open>What holds when the merge returns\<close>

lemma merge_for_preserves:
  assumes "wf_bmatrix cs"
  shows "\<exists>out. merge_for ths nsyns cs = Some out \<and> wf_bmatrix out \<and>
           nonzero_rows out = nonzero_rows cs"
proof -
  let ?P = "\<lambda>ds. wf_bmatrix ds \<and> nonzero_rows ds = nonzero_rows cs"
  have "?P (merge_step th j ds)" if "?P ds" "j + 1 < length ds" for th j ds
    using merge_step_preserves [of ds j th] that by simp
  with assms show ?thesis
    using merge_for_invariant [of ?P cs ths nsyns] by simp
qed

text \<open>
  Claim C2, as the code has it. When \<open>merge_clusters\<close> returns a matrix, the number of
  its columns is at most the number of unique synapses of the input divided (rounding
  down) by the smallest per-cluster count of the input; the rows that carry a synapse are
  those of the input; the sum the loop compares with \<open>nsyns\<close> is the sum of the
  per-cluster counts, and it is at least \<open>nsyns\<close>. Equality of the two is only the
  \<open>break\<close> condition of the \<open>for\<close> loop: nothing raises when the thresholds run out
  before it holds.
\<close>

theorem merge_clusters_exit:
  assumes "wf_bmatrix clusters" and "merge_clusters clusters = Some (Inr out)"
  shows "length out \<le> length (nonzero_rows clusters) div Min (set (col_counts clusters)) \<and>
         nonzero_rows out = nonzero_rows clusters \<and>
         sum_list (row_counts out) = sum_list (map count_true out) \<and>
         length (nonzero_rows clusters) \<le> sum_list (map count_true out)"
proof -
  let ?ths = "rev [2..<Min (set (col_counts clusters))]"
  let ?nsyns = "length (nonzero_rows clusters)"
  obtain res where res: "merge_for ?ths ?nsyns clusters = Some res" "wf_bmatrix res"
      "nonzero_rows res = nonzero_rows clusters"
    using merge_for_preserves [OF assms(1), of ?ths ?nsyns] by blast
  from assms(2) res(1) have out: "out = res"
      and ub: "length out \<le> ?nsyns div Min (set (col_counts clusters))"
    by (auto simp: merge_clusters_def np_min_def Let_def split: if_splits)
  from out res(2) have wf: "wf_bmatrix out" by simp
  from out res(3) have nz: "nonzero_rows out = nonzero_rows clusters" by simp
  have "length (nonzero_rows out) \<le> sum_list (map count_true out)"
    using wf by (rule nsyns_le_total)
  with nz have "?nsyns \<le> sum_list (map count_true out)" by simp
  with ub nz sum_row_counts [OF wf] show ?thesis by simp
qed

theorem merge_clusters_exit_witness:
  "wf_bmatrix [[True, True, True, True, False, False],
               [False, True, True, True, True, True],
               [False, True, True, True, True, True]] \<and>
   merge_clusters [[True, True, True, True, False, False],
                   [False, True, True, True, True, True],
                   [False, True, True, True, True, True]]
     = Some (Inr [[True, True, True, True, True, True]]) \<and>
   length [[True, True, True, True, True, True]]
     \<le> length (nonzero_rows [[True, True, True, True, False, False],
                               [False, True, True, True, True, True],
                               [False, True, True, True, True, True]])
        div Min (set (col_counts [[True, True, True, True, False, False],
                                  [False, True, True, True, True, True],
                                  [False, True, True, True, True, True]])) \<and>
   sum_list (map count_true [[True, True, True, True, True, True]]) = 6"
proof -
  let ?X = "[[True, True, True, True, False, False],
             [False, True, True, True, True, True],
             [False, True, True, True, True, True]]"
  have h: "wf_bmatrix ?X"
    by code_simp
  have r: "merge_clusters ?X = Some (Inr [[True, True, True, True, True, True]])"
    by code_simp
  have s: "sum_list (map count_true [[True, True, True, True, True, True]]) = 6"
    by code_simp
  from merge_clusters_exit [OF h r] h r s show ?thesis
    by simp
qed

text \<open>
  The claim as the specification words it fails: two raw clusters of three and four
  synapses that share one synapse are never merged (the smallest threshold is 2 and the
  comparison is strict), the threshold loop runs out, the final \<open>assert\<close> holds
  (two clusters, bound \<open>6 div 3 = 2\<close>), and the matrix is returned with seven
  cluster memberships for six unique synapses.
\<close>

theorem merge_clusters_sum_counterexample:
  "merge_clusters [[True, True, True, False, False, False],
                   [False, False, True, True, True, True]]
     = Some (Inr [[True, True, True, False, False, False],
                  [False, False, True, True, True, True]]) \<and>
   sum_list (map count_true [[True, True, True, False, False, False],
                             [False, False, True, True, True, True]]) = 7 \<and>
   length (nonzero_rows [[True, True, True, False, False, False],
                         [False, False, True, True, True, True]]) = 6"
proof -
  have "merge_clusters [[True, True, True, False, False, False],
                        [False, False, True, True, True, True]]
     = Some (Inr [[True, True, True, False, False, False],
                  [False, False, True, True, True, True]])"
    by code_simp
  moreover have "sum_list (map count_true [[True, True, True, False, False, False],
                             [False, False, True, True, True, True]]) = 7"
    by code_simp
  moreover have "length (nonzero_rows [[True, True, True, False, False, False],
                         [False, False, True, True, True, True]]) = 6"
    by code_simp
  ultimately show ?thesis
    by simp
qed

section \<open>Properties of density-peak clustering\<close>

subsection \<open>The zero mean distances of \<open>calc_rho_delta\<close>\<close>

text \<open>When the replacement of the zeros goes through, no mean distance is zero any
  more: the division that follows never divides by zero.\<close>

lemma replace_zeros_nonzero:
  assumes "replace_zeros mean_min_dists = Inr ms"
  shows "Some 0 \<notin> set ms"
proof -
  let ?sel = "filter (\<lambda>m. m \<noteq> Some 0) mean_min_dists"
  from assms obtain floor_dist where f: "fl_min ?sel = Inr floor_dist"
      and ms: "ms = map (\<lambda>m. if m = Some 0 then floor_dist else m) mean_min_dists"
    by (auto simp: replace_zeros_def err_bind_Inr)
  from f have ne: "?sel \<noteq> []"
    by (auto simp: fl_min_def split: if_splits)
  have "floor_dist \<noteq> Some 0"
  proof (cases "None \<in> set ?sel")
    case True
    with f ne show ?thesis by (simp add: fl_min_def)
  next
    case False
    with f ne have fd: "floor_dist = Some (Min (set (map the ?sel)))"
      by (simp add: fl_min_def)
    have "set (map the ?sel) \<noteq> {}"
      using ne by (simp only: set_empty map_is_Nil_conv) simp
    then have "Min (set (map the ?sel)) \<in> set (map the ?sel)"
      by (intro Min_in) simp_all
    then obtain m where m: "m \<in> set ?sel" "Min (set (map the ?sel)) = the m"
      by auto
    from m(1) have m0: "m \<noteq> Some 0"
      by simp
    from m(1) False have "m \<noteq> None"
      by metis
    with m0 have "the m \<noteq> 0"
      by (cases m) simp_all
    with m(2) fd show ?thesis
      by simp
  qed
  with ms show ?thesis by auto
qed

text \<open>
  Claim C8 fails on the code. When every mean distance is zero (two time bins at
  distance 0 from each other), there is no nonzero mean to take the minimum of and
  \<open>np.min\<close> raises \<open>ValueError\<close>. When \<open>int(ratio_to_keep * dists.shape[1])\<close> is 0
  (two bins with the default ratio 0.02 of \<open>db_clustering\<close>), the means are NaN, the
  densities are NaN and the loop over the densities raises \<open>ValueError\<close>.
\<close>

theorem calc_rho_delta_raises:
  "calc_rho_delta [[0, 0], [0, 0 :: rat]] 1 = Inl ValueError \<and>
   calc_rho_delta [[1, 1], [1, 1 :: rat]] (1 / 50) = Inl ValueError"
proof -
  have "calc_rho_delta [[0, 0], [0, 0 :: rat]] 1 = Inl ValueError"
    by code_simp
  moreover have "calc_rho_delta [[1, 1], [1, 1 :: rat]] (1 / 50) = Inl ValueError"
    by code_simp
  ultimately show ?thesis
    by simp
qed

subsection \<open>The centroids of \<open>db_clustering\<close>\<close>

lemma map_insort_key: "map f (insort_key f x ys) = insort (f x) (map f ys)"
  by (induction ys) simp_all

lemma map_sort_key: "map f (sort_key f xs) = sort (map f xs)"
  by (induction xs) (simp_all add: map_insort_key)

lemma sorted_gammas_rev_sort:
  "map (\<lambda>i. g ! i) (rev (sort_key (\<lambda>i. g ! i) [0..<length g])) = rev (sort g)"
proof -
  have "map (\<lambda>i. g ! i) (sort_key (\<lambda>i. g ! i) [0..<length g]) = sort (map (\<lambda>i. g ! i) [0..<length g])"
    by (rule map_sort_key)
  then have "rev (map (\<lambda>i. g ! i) (sort_key (\<lambda>i. g ! i) [0..<length g])) = rev (sort g)"
    by (simp add: map_nth)
  then show ?thesis
    by (simp only: rev_map)
qed

lemma fit_gammas_Inr:
  assumes "fit_gammas curve_fit t_ppf np_sqrt gammas alpha = Inr (tmp_idx, popt, stds)"
  shows "tmp_idx = [0..<length gammas] \<and>
         (\<exists>var_m var_y. curve_fit [0..<length gammas] gammas = Some (popt, (var_m, var_y)) \<and>
            stds = (fl2 (*) (t_ppf (1 - alpha / 2) (int (length gammas) - 2)) (np_sqrt var_m),
                    fl2 (*) (t_ppf (1 - alpha / 2) (int (length gammas) - 2)) (np_sqrt var_y)))"
  using assms
  by (auto simp: fit_gammas_def Let_def err_bind_Inr lib_call_Inr split: prod.splits)

lemma db_centroids_Inr:
  assumes "db_centroids pdist_square curve_fit t_ppf np_sqrt matrix ratio_to_keep = Inr (dists, pl)"
  obtains dists0 mx popt stds where
    "pdist_square matrix = Some dists0" "np_max (concat dists0) = Inr mx"
    "dists = fill_diagonal mx dists0"
    "calc_rho_delta dists ratio_to_keep = Inr (plot_rhos pl, plot_deltas pl)"
    "plot_sorted_gammas pl = map (\<lambda>i. gammas_of pl ! i)
        (rev (sort_key (\<lambda>i. gammas_of pl ! i) [0..<length (gammas_of pl)]))"
    "fit_gammas curve_fit t_ppf np_sqrt (plot_sorted_gammas pl) (1 / 1000)
       = Inr (plot_tmp_idx pl, popt, stds)"
    "plot_uCI pl = map (\<lambda>x. fn x (fl2 (+) (Some (fst popt)) (fst stds))
                                  (fl2 (+) (Some (snd popt)) (snd stds))) (plot_tmp_idx pl)"
    "plot_centroid_idx pl = filter (\<lambda>i. fl_ge (Some (gammas_of pl ! i)) (plot_uCI pl ! i))
                              [0..<length (gammas_of pl)]"
proof -
  from assms obtain dists0 mx rhos deltas where
      a: "pdist_square matrix = Some dists0" "np_max (concat dists0) = Inr mx"
         "calc_rho_delta (fill_diagonal mx dists0) ratio_to_keep = Inr (rhos, deltas)"
      and r: "(let gammas = map2 (*) rhos deltas;
                sort_idx = rev (sort_key (\<lambda>i. gammas ! i) [0..<length gammas]);
                sorted_gammas = map (\<lambda>i. gammas ! i) sort_idx
            in err_bind (fit_gammas curve_fit t_ppf np_sqrt sorted_gammas (1 / 1000))
                 (\<lambda>(tmp_idx, popt, stds).
            let fit = map (\<lambda>x. fn x (Some (fst popt)) (Some (snd popt))) tmp_idx;
                lCI = map (\<lambda>x. fn x (fl2 (-) (Some (fst popt)) (fst stds))
                                     (fl2 (-) (Some (snd popt)) (snd stds))) tmp_idx;
                uCI = map (\<lambda>x. fn x (fl2 (+) (Some (fst popt)) (fst stds))
                                     (fl2 (+) (Some (snd popt)) (snd stds))) tmp_idx;
                centroid_idx = filter (\<lambda>i. fl_ge (Some (gammas ! i)) (uCI ! i))
                                 [0..<length gammas]
            in Inr (fill_diagonal mx dists0, \<lparr>plot_rhos = rhos, plot_deltas = deltas,
                            plot_tmp_idx = tmp_idx, plot_sorted_gammas = sorted_gammas,
                            plot_fit = fit, plot_lCI = lCI, plot_uCI = uCI,
                            plot_centroid_idx = centroid_idx\<rparr>))) = Inr (dists, pl)"
    unfolding db_centroids_def
    by (auto simp: err_bind_Inr lib_call_Inr Let_def)
  define gammas where "gammas = map2 (*) rhos deltas"
  define sorted_gammas where
    "sorted_gammas = map (\<lambda>i. gammas ! i) (rev (sort_key (\<lambda>i. gammas ! i) [0..<length gammas]))"
  from r obtain tmp_idx popt stds where
      f: "fit_gammas curve_fit t_ppf np_sqrt sorted_gammas (1 / 1000) = Inr (tmp_idx, popt, stds)"
      and d: "dists = fill_diagonal mx dists0"
      and p: "pl = \<lparr>plot_rhos = rhos, plot_deltas = deltas, plot_tmp_idx = tmp_idx,
           plot_sorted_gammas = sorted_gammas,
           plot_fit = map (\<lambda>x. fn x (Some (fst popt)) (Some (snd popt))) tmp_idx,
           plot_lCI = map (\<lambda>x. fn x (fl2 (-) (Some (fst popt)) (fst stds))
                                     (fl2 (-) (Some (snd popt)) (snd stds))) tmp_idx,
           plot_uCI = map (\<lambda>x. fn x (fl2 (+) (Some (fst popt)) (fst stds))
                                     (fl2 (+) (Some (snd popt)) (snd stds))) tmp_idx,
           plot_centroid_idx = filter (\<lambda>i. fl_ge (Some (gammas ! i))
               (map (\<lambda>x. fn x (fl2 (+) (Some (fst popt)) (fst stds))
                                (fl2 (+) (Some (snd popt)) (snd stds))) tmp_idx ! i))
             [0..<length gammas]\<rparr>"
    unfolding Let_def gammas_def [symmetric] sorted_gammas_def [symmetric]
    by (auto simp: err_bind_Inr)
  have g: "gammas_of pl = gammas"
    by (simp add: gammas_of_def p gammas_def)
  show thesis
  proof (rule that [of dists0 mx popt stds])
    show "pdist_square matrix = Some dists0" "np_max (concat dists0) = Inr mx"
      "dists = fill_diagonal mx dists0"
      by (fact a(1) a(2) d)+
    show "calc_rho_delta dists ratio_to_keep = Inr (plot_rhos pl, plot_deltas pl)"
      using a(3) by (simp add: d p)
    show "plot_sorted_gammas pl = map (\<lambda>i. gammas_of pl ! i)
        (rev (sort_key (\<lambda>i. gammas_of pl ! i) [0..<length (gammas_of pl)]))"
      unfolding g by (simp add: p sorted_gammas_def)
    show "fit_gammas curve_fit t_ppf np_sqrt (plot_sorted_gammas pl) (1 / 1000)
       = Inr (plot_tmp_idx pl, popt, stds)"
      using f by (simp add: p)
    show "plot_uCI pl = map (\<lambda>x. fn x (fl2 (+) (Some (fst popt)) (fst stds))
                                  (fl2 (+) (Some (snd popt)) (snd stds))) (plot_tmp_idx pl)"
      by (simp add: p)
    show "plot_centroid_idx pl = filter (\<lambda>i. fl_ge (Some (gammas_of pl ! i)) (plot_uCI pl ! i))
                              [0..<length (gammas_of pl)]"
      unfolding g by (simp add: p)
  qed
qed

lemma nearest_centroid_error:
  "err_map (\<lambda>row. err_bind (take_idx row idx) np_argmin) dists = Inl e \<Longrightarrow>
     e = IndexError \<or> e = ValueError"
  by (auto dest!: err_map_Inl simp: err_bind_Inl take_idx_def np_argmin_def split: if_splits)

text \<open>
  What lines 125 to 134 compute. The sequence that is fitted is \<open>gammas\<close> sorted in
  descending order, and \<open>uCI[x]\<close> is the upper line at the position \<open>x\<close> of that
  sorted sequence: slope and intercept are the fitted ones, each raised by the \<open>t\<close>
  quantile at \<open>1 - 0.001/2\<close> with \<open>len(gammas) - 2\<close> degrees of freedom times the
  square root of its variance. Line 133 then compares \<open>gammas\<close>, in the order of the
  bins, with \<open>uCI\<close> element by element: bin \<open>i\<close> is tested against \<open>uCI[i]\<close>,
  the bound at the position \<open>i\<close> of the sorted sequence, whatever the position of
  \<open>gammas[i]\<close> in that sequence is. The \<open>assert\<close> of line 134 fails exactly when
  more than 20 bins pass the test.
\<close>

lemma db_centroids_own_index:
  assumes "db_centroids pdist_square curve_fit t_ppf np_sqrt matrix ratio_to_keep = Inr (dists, pl)"
  shows "plot_sorted_gammas pl = rev (sort (gammas_of pl)) \<and>
    (\<exists>m yshift var_m var_y.
       curve_fit [0..<length (gammas_of pl)] (plot_sorted_gammas pl)
         = Some ((m, yshift), (var_m, var_y)) \<and>
       (\<forall>i < length (gammas_of pl). plot_uCI pl ! i =
          fn i (fl2 (+) (Some m)
                  (fl2 (*) (t_ppf (1 - (1 / 1000) / 2) (int (length (gammas_of pl)) - 2))
                     (np_sqrt var_m)))
               (fl2 (+) (Some yshift)
                  (fl2 (*) (t_ppf (1 - (1 / 1000) / 2) (int (length (gammas_of pl)) - 2))
                     (np_sqrt var_y))))) \<and>
    (\<forall>i. i \<in> set (plot_centroid_idx pl) \<longleftrightarrow>
       i < length (gammas_of pl) \<and> fl_ge (Some (gammas_of pl ! i)) (plot_uCI pl ! i)) \<and>
    (db_clustering pdist_square curve_fit t_ppf np_sqrt matrix ratio_to_keep = Inl AssertionError
       \<longleftrightarrow> 20 < length (plot_centroid_idx pl))"
proof -
  from assms obtain dists0 mx popt stds where
      sg: "plot_sorted_gammas pl = map (\<lambda>i. gammas_of pl ! i)
        (rev (sort_key (\<lambda>i. gammas_of pl ! i) [0..<length (gammas_of pl)]))"
      and fg: "fit_gammas curve_fit t_ppf np_sqrt (plot_sorted_gammas pl) (1 / 1000)
       = Inr (plot_tmp_idx pl, popt, stds)"
      and u: "plot_uCI pl = map (\<lambda>x. fn x (fl2 (+) (Some (fst popt)) (fst stds))
                                  (fl2 (+) (Some (snd popt)) (snd stds))) (plot_tmp_idx pl)"
      and c: "plot_centroid_idx pl = filter (\<lambda>i. fl_ge (Some (gammas_of pl ! i)) (plot_uCI pl ! i))
                              [0..<length (gammas_of pl)]"
    by (rule db_centroids_Inr)
  have sorted: "plot_sorted_gammas pl = rev (sort (gammas_of pl))"
    unfolding sg by (rule sorted_gammas_rev_sort)
  then have len: "length (plot_sorted_gammas pl) = length (gammas_of pl)"
    by simp
  from fit_gammas_Inr [OF fg] len obtain var_m var_y where
      ti: "plot_tmp_idx pl = [0..<length (gammas_of pl)]"
      and cf: "curve_fit [0..<length (gammas_of pl)] (plot_sorted_gammas pl)
                 = Some (popt, (var_m, var_y))"
      and st: "stds = (fl2 (*) (t_ppf (1 - (1 / 1000) / 2) (int (length (gammas_of pl)) - 2))
                         (np_sqrt var_m),
                       fl2 (*) (t_ppf (1 - (1 / 1000) / 2) (int (length (gammas_of pl)) - 2))
                         (np_sqrt var_y))"
    by auto
  have bound: "\<exists>m yshift var_m var_y.
       curve_fit [0..<length (gammas_of pl)] (plot_sorted_gammas pl)
         = Some ((m, yshift), (var_m, var_y)) \<and>
       (\<forall>i < length (gammas_of pl). plot_uCI pl ! i =
          fn i (fl2 (+) (Some m)
                  (fl2 (*) (t_ppf (1 - (1 / 1000) / 2) (int (length (gammas_of pl)) - 2))
                     (np_sqrt var_m)))
               (fl2 (+) (Some yshift)
                  (fl2 (*) (t_ppf (1 - (1 / 1000) / 2) (int (length (gammas_of pl)) - 2))
                     (np_sqrt var_y))))"
  proof (intro exI conjI allI impI)
    show "curve_fit [0..<length (gammas_of pl)] (plot_sorted_gammas pl)
            = Some ((fst popt, snd popt), (var_m, var_y))"
      using cf by simp
  next
    fix i assume "i < length (gammas_of pl)"
    then show "plot_uCI pl ! i =
          fn i (fl2 (+) (Some (fst popt))
                  (fl2 (*) (t_ppf (1 - (1 / 1000) / 2) (int (length (gammas_of pl)) - 2))
                     (np_sqrt var_m)))
               (fl2 (+) (Some (snd popt))
                  (fl2 (*) (t_ppf (1 - (1 / 1000) / 2) (int (length (gammas_of pl)) - 2))
                     (np_sqrt var_y)))"
      unfolding u ti st by simp
  qed
  have rule: "i \<in> set (plot_centroid_idx pl) \<longleftrightarrow>
       i < length (gammas_of pl) \<and> fl_ge (Some (gammas_of pl ! i)) (plot_uCI pl ! i)" for i
    by (subst c) auto
  have cap: "db_clustering pdist_square curve_fit t_ppf np_sqrt matrix ratio_to_keep
               = Inl AssertionError \<longleftrightarrow> 20 < length (plot_centroid_idx pl)"
  proof (cases "20 < length (plot_centroid_idx pl)")
    case True
    with assms show ?thesis
      by (simp add: db_clustering_def err_bind_def)
  next
    case False
    have "err_map (\<lambda>row. err_bind (take_idx row (plot_centroid_idx pl)) np_argmin) dists
            \<noteq> Inl AssertionError"
      using nearest_centroid_error [of "plot_centroid_idx pl" dists AssertionError] by auto
    with False assms show ?thesis
      by (auto simp: db_clustering_def err_bind_Inl)
  qed
  from sorted bound rule cap show ?thesis
    by blast
qed

text \<open>
  Claim C3 does not hold of the code: the bins that \<open>db_clustering\<close> declares
  centroids are not those whose \<open>gamma\<close> exceeds the upper bound of the fitted line,
  and they change with the order of the bins. For the eight bins of \<open>example_bins\<close>
  with \<open>ratio_to_keep = 0.125\<close> the two bins 6 and 7, both with \<open>gamma = 28\<close>, are
  returned as the centroids, because the bound is below 25 at the indices 6 and 7. Their
  \<open>gamma\<close> values are the first two of the sorted sequence, where the bound is above
  34, and no value of the sorted sequence reaches the bound at its own position. For the
  same eight bins in the order of \<open>example_bins_reordered\<close> the sorted sequence and
  the bound are the same, no bin passes the test of line 133, and \<open>np.argmin\<close> on the
  empty selection of line 137 raises \<open>ValueError\<close>.
\<close>

theorem db_clustering_order_dependent:
  "\<exists>pl dists pl'.
     db_clustering line_pdist_square example_curve_fit example_t_ppf example_sqrt
         example_bins (1 / 8) = Inr ([0, 0, 0, 0, 0, 0, 0, 1], pl) \<and>
     gammas_of pl = [11 / 4, 7 / 4, 10, 11, 17, 18, 28, 28] \<and>
     plot_sorted_gammas pl = example_sorted_gammas \<and>
     plot_centroid_idx pl = [6, 7] \<and>
     fl_gt (Some 25) (plot_uCI pl ! 6) \<and> fl_gt (Some 25) (plot_uCI pl ! 7) \<and>
     fl_gt (plot_uCI pl ! 0) (Some 34) \<and> fl_gt (plot_uCI pl ! 1) (Some 34) \<and>
     filter (\<lambda>x. fl_ge (Some (plot_sorted_gammas pl ! x)) (plot_uCI pl ! x)) [0..<8] = [] \<and>
     db_centroids line_pdist_square example_curve_fit example_t_ppf example_sqrt
         example_bins_reordered (1 / 8) = Inr (dists, pl') \<and>
     gammas_of pl' = [28, 28, 11 / 4, 7 / 4, 10, 11, 17, 18] \<and>
     plot_sorted_gammas pl' = example_sorted_gammas \<and>
     plot_uCI pl' = plot_uCI pl \<and>
     plot_centroid_idx pl' = [] \<and>
     db_clustering line_pdist_square example_curve_fit example_t_ppf example_sqrt
         example_bins_reordered (1 / 8) = Inl ValueError"
proof -
  have e: "case (db_clustering line_pdist_square example_curve_fit example_t_ppf example_sqrt
                   example_bins (1 / 8),
                 db_centroids line_pdist_square example_curve_fit example_t_ppf example_sqrt
                   example_bins_reordered (1 / 8)) of
             (Inr (clusters, pl), Inr (dists, pl')) \<Rightarrow>
               clusters = [0, 0, 0, 0, 0, 0, 0, 1] \<and>
               gammas_of pl = [11 / 4, 7 / 4, 10, 11, 17, 18, 28, 28] \<and>
               plot_sorted_gammas pl = example_sorted_gammas \<and>
               plot_centroid_idx pl = [6, 7] \<and>
               fl_gt (Some 25) (plot_uCI pl ! 6) \<and> fl_gt (Some 25) (plot_uCI pl ! 7) \<and>
               fl_gt (plot_uCI pl ! 0) (Some 34) \<and> fl_gt (plot_uCI pl ! 1) (Some 34) \<and>
               filter (\<lambda>x. fl_ge (Some (plot_sorted_gammas pl ! x)) (plot_uCI pl ! x)) [0..<8]
                 = [] \<and>
               gammas_of pl' = [28, 28, 11 / 4, 7 / 4, 10, 11, 17, 18] \<and>
               plot_sorted_gammas pl' = example_sorted_gammas \<and>
               plot_uCI pl' = plot_uCI pl \<and>
               plot_centroid_idx pl' = []
           | _ \<Rightarrow> False"
    by code_simp
  have r: "db_clustering line_pdist_square example_curve_fit example_t_ppf example_sqrt
         example_bins_reordered (1 / 8) = Inl ValueError"
    by code_simp
  from e obtain clusters pl dists pl' where
      a: "db_clustering line_pdist_square example_curve_fit example_t_ppf example_sqrt
            example_bins (1 / 8) = Inr (clusters, pl)"
      and b: "db_centroids line_pdist_square example_curve_fit example_t_ppf example_sqrt
            example_bins_reordered (1 / 8) = Inr (dists, pl')"
      and c: "clusters = [0, 0, 0, 0, 0, 0, 0, 1] \<and>
               gammas_of pl = [11 / 4, 7 / 4, 10, 11, 17, 18, 28, 28] \<and>
               plot_sorted_gammas pl = example_sorted_gammas \<and>
               plot_centroid_idx pl = [6, 7] \<and>
               fl_gt (Some 25) (plot_uCI pl ! 6) \<and> fl_gt (Some 25) (plot_uCI pl ! 7) \<and>
               fl_gt (plot_uCI pl ! 0) (Some 34) \<and> fl_gt (plot_uCI pl ! 1) (Some 34) \<and>
               filter (\<lambda>x. fl_ge (Some (plot_sorted_gammas pl ! x)) (plot_uCI pl ! x)) [0..<8]
                 = [] \<and>
               gammas_of pl' = [28, 28, 11 / 4, 7 / 4, 10, 11, 17, 18] \<and>
               plot_sorted_gammas pl' = example_sorted_gammas \<and>
               plot_uCI pl' = plot_uCI pl \<and>
               plot_centroid_idx pl' = []"
    by (rule case_Inr_pair2)
  from c have cl: "clusters = [0, 0, 0, 0, 0, 0, 0, 1]" ..
  from a b c r show ?thesis
    unfolding cl by blast
qed

subsection \<open>The labels of \<open>db_clustering\<close>\<close>






section \<open>The labels of the two time-bin clusterings\<close>


lemma cut_clusters_Inr:
  assumes "cut_clusters lib lm dists sim' n_method n = Inr (sim, labels, plotting)"
  shows "\<exists>clusters. fcluster_maxclust lib lm n = Some clusters \<and>
           labels = map (\<lambda>c. c - 1) clusters \<and> sim = sim'"
  using assms
  by (auto simp: cut_clusters_def err_bind_Inr lib_call_Inr split: if_splits)





section \<open>Properties of \<open>cluster_assemblies\<close>\<close>

lemma count_le_one_distinct:
  "(\<And>x. x \<in> set xs \<Longrightarrow> count_list xs x \<le> 1) \<Longrightarrow> distinct xs"
proof (induction xs)
  case Nil
  then show ?case by simp
next
  case (Cons a xs)
  have "count_list (a # xs) a \<le> 1"
    using Cons.prems [of a] by simp
  then have "count_list xs a = 0" by simp
  then have a: "a \<notin> set xs"
    by (simp add: count_list_0_iff)
  have "count_list xs x \<le> 1" if "x \<in> set xs" for x
    using Cons.prems [of x] that by (auto split: if_splits)
  then have "distinct xs" by (rule Cons.IH)
  with a show ?case by simp
qed

lemma unique_counts_distinct:
  "\<not> list_ex (\<lambda>c. 1 < c) (np_unique_counts xs) \<longleftrightarrow> distinct xs"
proof
  assume h: "\<not> list_ex (\<lambda>c. 1 < c) (np_unique_counts xs)"
  have "count_list xs x \<le> 1" if "x \<in> set xs" for x
    using h that by (auto simp: np_unique_counts_def list_ex_iff not_less)
  then show "distinct xs" by (rule count_le_one_distinct)
next
  assume "distinct xs"
  then have "count_list xs x \<le> 1" for x
    by (induction xs) auto
  then show "\<not> list_ex (\<lambda>c. 1 < c) (np_unique_counts xs)"
    by (auto simp: np_unique_counts_def list_ex_iff not_less)
qed

lemma check_seed_separation_distinct:
  "check_seed_separation clusters cum \<longleftrightarrow>
     (\<forall>(i, j) \<in> set (zip (butlast cum) (tl cum)). distinct (slice clusters i j))"
  unfolding check_seed_separation_def list_all_iff unique_counts_distinct ..

text \<open>The blocks of the seeds, with the offset of the first one.\<close>

lemma blocks_Cons:
  "zip (butlast (acc # np_cumsum_from acc (n # ns))) (np_cumsum_from acc (n # ns))
     = (acc, acc + n) # zip (butlast ((acc + n) # np_cumsum_from (acc + n) ns))
                            (np_cumsum_from (acc + n) ns)"
  by simp

lemma seed_of_block:
  assumes "seed_of ns p = Some s"
  shows "s < length (zip (butlast (acc # np_cumsum_from acc ns)) (np_cumsum_from acc ns)) \<and>
         fst (zip (butlast (acc # np_cumsum_from acc ns)) (np_cumsum_from acc ns) ! s) \<le> acc + p \<and>
         acc + p < snd (zip (butlast (acc # np_cumsum_from acc ns)) (np_cumsum_from acc ns) ! s)"
  using assms
proof (induction ns arbitrary: p s acc)
  case Nil
  then show ?case by simp
next
  case (Cons n ns)
  show ?case
  proof (cases "p < n")
    case True
    with Cons.prems have "s = 0" by simp
    with True show ?thesis
      by (simp only: blocks_Cons) simp
  next
    case False
    with Cons.prems obtain s' where s': "seed_of ns (p - n) = Some s'" "s = Suc s'"
      by auto
    from Cons.IH [OF s'(1), of "acc + n"] False s'(2) show ?thesis
      by (simp only: blocks_Cons) simp
  qed
qed

lemma slice_distinct_nth:
  assumes "distinct (slice xs i j)" and "i \<le> p" "p < j" "i \<le> q" "q < j"
    and "p < length xs" "q < length xs" "p \<noteq> q"
  shows "xs ! p \<noteq> xs ! q"
proof -
  have len: "p - i < length (slice xs i j)" "q - i < length (slice xs i j)"
    using assms by (auto simp: slice_def)
  have "slice xs i j ! (p - i) = xs ! p" "slice xs i j ! (q - i) = xs ! q"
    using assms by (auto simp: slice_def)
  moreover have "p - i \<noteq> q - i"
    using assms by arith
  ultimately show ?thesis
    using assms(1) len by (metis nth_eq_iff_index_eq)
qed

lemma n_clust_loop_valid:
  assumes "n_clust_loop lib lm dists cum ns = Inr (v, s, d)"
  shows "v = filter (valid_n lib lm cum) ns \<and> length s = length v \<and> length d = length v \<and>
         (\<forall>n \<in> set ns. fcluster_maxclust lib lm n \<noteq> None)"
  using assms
proof (induction ns arbitrary: v s d)
  case Nil
  then show ?case by simp
next
  case (Cons n ns)
  from Cons.prems obtain cl where cl: "fcluster_maxclust lib lm n = Some cl"
    by (auto simp: err_bind_Inr lib_call_Inr)
  show ?case
  proof (cases "check_seed_separation cl cum")
    case True
    with Cons.prems cl obtain v' s' d' ss db where
        r: "n_clust_loop lib lm dists cum ns = Inr (v', s', d')"
        and e: "v = n # v'" "s = ss # s'" "d = db # d'"
      by (auto simp: err_bind_Inr lib_call_Inr)
    from Cons.IH [OF r] e cl True show ?thesis
      by (simp add: valid_n_def)
  next
    case False
    with Cons.prems cl have r: "n_clust_loop lib lm dists cum ns = Inr (v, s, d)"
      by (simp add: err_bind_def lib_call_def)
    from Cons.IH [OF r] cl False show ?thesis
      by (simp add: valid_n_def)
  qed
qed

lemma n_clust_loop_none_valid:
  assumes "\<forall>n \<in> set ns. \<exists>cl. fcluster_maxclust lib lm n = Some cl \<and> \<not> check_seed_separation cl cum"
  shows "n_clust_loop lib lm dists cum ns = Inr ([], [], [])"
  using assms by (induction ns) (auto simp: err_bind_def lib_call_def)

lemma n_clust_loop_error:
  "n_clust_loop lib lm dists cum ns = Inl e \<Longrightarrow> e = LibraryError"
proof (induction ns)
  case Nil
  then show ?case by simp
next
  case (Cons n ns)
  then show ?case
    by (auto simp: err_bind_Inl err_bind_Inr lib_call_Inl lib_call_Inr split: if_splits)
qed

lemma choose_n_clust_mem:
  assumes "choose_n_clust n_method v s d lo hi = Inr n"
    and "length s = length v" "length d = length v"
  shows "n \<in> set v"
proof -
  from assms(1) have ne: "v \<noteq> []"
    by (auto simp: choose_n_clust_def split: if_splits)
  from assms(1) ne consider "n = v ! 0"
    | k where "np_argmax s = Inr k" "n = v ! k"
    | k where "np_argmin d = Inr k" "n = v ! k"
    by (auto simp: choose_n_clust_def err_bind_Inr split: if_splits)
  then show ?thesis
  proof cases
    case 1
    with ne show ?thesis by simp
  next
    case 2
    with np_argmax_less [of s k] assms(2) show ?thesis by simp
  next
    case 3
    with np_argmin_less [of d k] assms(3) show ?thesis by simp
  qed
qed

lemma choose_n_clust_RuntimeError:
  assumes "length s = length v" "length d = length v"
  shows "choose_n_clust n_method v s d lo hi = Inl (RuntimeError a b) \<longleftrightarrow> v = [] \<and> a = lo \<and> b = hi"
  using assms
  by (auto simp: choose_n_clust_def err_bind_Inl np_argmax_def np_argmin_def split: if_splits)

lemma last_np_cumsum_from: "last (acc # np_cumsum_from acc ns) = acc + sum_list ns"
  by (induction ns arbitrary: acc) (auto simp: add.assoc)

lemma cluster_assemblies_setup_Inr:
  assumes "cluster_assemblies_setup lib pdist X ns metric method ubd = Inr (sim, dists, cum, lo, hi, lm)"
  shows "ns \<noteq> [] \<and> cum = 0 # np_cumsum ns \<and> lo = Max (set ns) \<and> hi = min 20 (sum_list ns)"
proof -
  have "last (0 # np_cumsum ns) = sum_list ns"
    using last_np_cumsum_from [of 0 ns] by (simp add: np_cumsum_def)
  with assms show ?thesis
    by (auto simp: cluster_assemblies_setup_def Let_def err_bind_Inr np_max_def min_def
        simp del: last.simps split: if_splits prod.splits)
qed

lemma cluster_assemblies_setup_error:
  "cluster_assemblies_setup lib pdist X ns metric method ubd = Inl e \<Longrightarrow>
     e = LibraryError \<or> e = ValueError"
  by (auto simp: cluster_assemblies_setup_def update_block_diagonal_dists_def Let_def
      err_bind_Inl err_bind_Inr lib_call_Inl np_max_def split: if_splits prod.splits)

lemma cluster_assemblies_select_Inr:
  assumes "cluster_assemblies_select lib lm dists cum n_method lo hi = Inr n"
  shows "n \<in> set [lo..<hi + 1] \<and> valid_n lib lm cum n"
proof -
  from assms obtain v s d where
      loop: "n_clust_loop lib lm dists cum [lo..<hi + 1] = Inr (v, s, d)"
      and ch: "choose_n_clust n_method v s d lo hi = Inr n"
    by (auto simp: cluster_assemblies_select_def err_bind_Inr simp del: upt_Suc)
  from n_clust_loop_valid [OF loop] have
      v: "v = filter (valid_n lib lm cum) [lo..<hi + 1]" "length s = length v" "length d = length v"
    by simp_all
  from choose_n_clust_mem [OF ch v(2) v(3)] v(1) show ?thesis
    by simp
qed

lemma cluster_assemblies_Inr:
  assumes "cluster_assemblies lib pdist X ns metric method ubd n_method = Inr (sim, labels, plotting)"
  obtains dists cum lo hi lm n clusters where
    "cluster_assemblies_setup lib pdist X ns metric method ubd = Inr (sim, dists, cum, lo, hi, lm)"
    "n \<in> set [lo..<hi + 1]" "valid_n lib lm cum n"
    "fcluster_maxclust lib lm n = Some clusters" "labels = map (\<lambda>c. c - 1) clusters"
proof -
  from assms obtain sim' dists cum lo hi lm n where
      stp: "cluster_assemblies_setup lib pdist X ns metric method ubd
                = Inr (sim', dists, cum, lo, hi, lm)"
      and sel: "cluster_assemblies_select lib lm dists cum n_method lo hi = Inr n"
      and cut: "cut_clusters lib lm dists sim' n_method n = Inr (sim, labels, plotting)"
    by (auto simp: cluster_assemblies_def err_bind_Inr)
  from cut_clusters_Inr [OF cut] obtain clusters where
      "fcluster_maxclust lib lm n = Some clusters" "labels = map (\<lambda>c. c - 1) clusters" "sim = sim'"
    by blast
  with stp cluster_assemblies_select_Inr [OF sel] that show thesis
    by blast
qed

text \<open>
  Claim C1. Whenever \<open>cluster_assemblies\<close> returns, two different assemblies of one seed
  have different consensus labels, whatever the library functions (distance metric,
  linkage, flat clustering, scores) compute, whatever the per-seed assembly counts and
  for each way of choosing the cluster count.
\<close>

theorem cluster_assemblies_seed_separation:
  assumes "cluster_assemblies lib pdist assemblies n_assemblies distance_metric linkage_method
             update_block_diagonals n_method = Inr (sim_matrix, labels, plotting)"
    and "seed_of n_assemblies p = Some s" and "seed_of n_assemblies q = Some s"
    and "p \<noteq> q" and "p < length labels" and "q < length labels"
  shows "labels ! p \<noteq> labels ! q"
proof -
  from assms(1) obtain dists cum lo hi lm n clusters where
      stp: "cluster_assemblies_setup lib pdist assemblies n_assemblies distance_metric
                linkage_method update_block_diagonals = Inr (sim_matrix, dists, cum, lo, hi, lm)"
      and valid: "valid_n lib lm cum n"
      and fc: "fcluster_maxclust lib lm n = Some clusters"
      and labels: "labels = map (\<lambda>c. c - 1) clusters"
    by (rule cluster_assemblies_Inr)
  from cluster_assemblies_setup_Inr [OF stp] have cum: "cum = 0 # np_cumsum n_assemblies"
    by simp
  let ?B = "zip (butlast (0 # np_cumsum_from 0 n_assemblies)) (np_cumsum_from 0 n_assemblies)"
  from seed_of_block [OF assms(2), of 0] seed_of_block [OF assms(3), of 0]
  have s: "s < length ?B" and p: "fst (?B ! s) \<le> p" "p < snd (?B ! s)"
      and q: "fst (?B ! s) \<le> q" "q < snd (?B ! s)"
    by simp_all
  from s have mem: "?B ! s \<in> set (zip (butlast cum) (tl cum))"
    unfolding cum np_cumsum_def by simp
  from valid fc have "check_seed_separation clusters cum"
    by (simp add: valid_n_def)
  with mem have "distinct (slice clusters (fst (?B ! s)) (snd (?B ! s)))"
    unfolding check_seed_separation_distinct by (auto simp: case_prod_beta)
  then have "clusters ! p \<noteq> clusters ! q"
    using p q assms(4-6) labels by (intro slice_distinct_nth) simp_all
  with assms(5,6) labels show ?thesis
    by simp
qed

theorem cluster_assemblies_seed_separation_witness:
  "cluster_assemblies example_lib example_pdist example_assemblies [2, 2] ''hamming'' ''average''
       True ''ss''
     = Inr ([[1, 0, 1, 0], [0, 1, 0, 1], [1, 0, 1, 0], [0, 1, 0, 1]], [0, 1, 0, 1], (),
            Some [1, 1, 1, 1]) \<and>
   seed_of [2, 2] 2 = Some 1 \<and> seed_of [2, 2] 3 = Some 1 \<and>
   [0, 1, 0, 1 :: int] ! 2 \<noteq> [0, 1, 0, 1] ! 3"
proof -
  have r: "cluster_assemblies example_lib example_pdist example_assemblies [2, 2] ''hamming''
             ''average'' True ''ss''
     = Inr ([[1, 0, 1, 0], [0, 1, 0, 1], [1, 0, 1, 0], [0, 1, 0, 1]], [0, 1, 0, 1], (),
            Some [1, 1, 1, 1])"
    by code_simp
  have p: "seed_of [2, 2] 2 = Some 1" and q: "seed_of [2, 2] 3 = Some 1"
    by simp_all
  have "[0, 1, 0, 1 :: int] ! 2 \<noteq> [0, 1, 0, 1] ! 3"
    using cluster_assemblies_seed_separation [OF r p q] by simp
  with r p q show ?thesis
    by simp
qed

lemma cut_clusters_error:
  "cut_clusters lib lm dists sim n_method n = Inl e \<Longrightarrow> e = LibraryError"
  by (auto simp: cut_clusters_def err_bind_Inl err_bind_Inr lib_call_Inl
      split: if_splits)

lemma cluster_assemblies_select_RuntimeError:
  "cluster_assemblies_select lib lm dists cum n_method lo hi = Inl (RuntimeError a b) \<longleftrightarrow>
     a = lo \<and> b = hi \<and>
     (\<forall>n \<in> set [lo..<hi + 1]. \<exists>cl. fcluster_maxclust lib lm n = Some cl \<and>
        \<not> check_seed_separation cl cum)"
proof
  assume h: "cluster_assemblies_select lib lm dists cum n_method lo hi = Inl (RuntimeError a b)"
  have "n_clust_loop lib lm dists cum [lo..<hi + 1] \<noteq> Inl (RuntimeError a b)"
    using n_clust_loop_error [of lib lm dists cum "[lo..<hi + 1]" "RuntimeError a b"] by auto
  with h obtain v s d where
      loop: "n_clust_loop lib lm dists cum [lo..<hi + 1] = Inr (v, s, d)"
      and ch: "choose_n_clust n_method v s d lo hi = Inl (RuntimeError a b)"
    by (auto simp: cluster_assemblies_select_def err_bind_Inl simp del: upt_Suc)
  from n_clust_loop_valid [OF loop] have
      v: "v = filter (valid_n lib lm cum) [lo..<hi + 1]" "length s = length v" "length d = length v"
      and fc: "\<forall>n \<in> set [lo..<hi + 1]. fcluster_maxclust lib lm n \<noteq> None"
    by simp_all
  from ch have e: "v = []" "a = lo" "b = hi"
    using choose_n_clust_RuntimeError [OF v(2) v(3)] by simp_all
  have "\<exists>cl. fcluster_maxclust lib lm n = Some cl \<and> \<not> check_seed_separation cl cum"
    if n: "n \<in> set [lo..<hi + 1]" for n
  proof -
    from fc n obtain cl where cl: "fcluster_maxclust lib lm n = Some cl" by blast
    from e(1) v(1) n have "\<not> valid_n lib lm cum n"
      by (simp only: filter_empty_conv) blast
    with cl show ?thesis by (simp add: valid_n_def)
  qed
  with e show "a = lo \<and> b = hi \<and>
     (\<forall>n \<in> set [lo..<hi + 1]. \<exists>cl. fcluster_maxclust lib lm n = Some cl \<and>
        \<not> check_seed_separation cl cum)"
    by blast
next
  assume h: "a = lo \<and> b = hi \<and>
     (\<forall>n \<in> set [lo..<hi + 1]. \<exists>cl. fcluster_maxclust lib lm n = Some cl \<and>
        \<not> check_seed_separation cl cum)"
  then have "n_clust_loop lib lm dists cum [lo..<hi + 1] = Inr ([], [], [])"
    by (intro n_clust_loop_none_valid) blast
  with h show "cluster_assemblies_select lib lm dists cum n_method lo hi = Inl (RuntimeError a b)"
    by (simp add: cluster_assemblies_select_def err_bind_def choose_n_clust_def del: upt_Suc)
qed

text \<open>
  Claim C7. Once the distances and the linkage are computed, the candidate cluster
  counts are those of the closed range from the largest per-seed assembly count to the
  smaller of 20 and the total number of assemblies: the valid counts the loop collects
  are the counts of that range that satisfy the seed-separation constraint. The operation
  raises \<open>RuntimeError\<close>, with the two bounds of the range in its message, exactly when
  every count of the range fails the constraint; being an error, that result carries no
  clustering. When it returns, the labels are those of a cut at a count of the range that
  satisfies the constraint.
\<close>

theorem cluster_assemblies_range:
  assumes "cluster_assemblies_setup lib pdist assemblies n_assemblies distance_metric
             linkage_method update_block_diagonals = Inr (sim, dists, cum, lo, hi, lm)"
  shows "lo = Max (set n_assemblies) \<and> hi = min 20 (sum_list n_assemblies) \<and>
    (\<forall>v s d. n_clust_loop lib lm dists cum [lo..<hi + 1] = Inr (v, s, d) \<longrightarrow>
       set v = {n. lo \<le> n \<and> n \<le> hi \<and> valid_n lib lm cum n}) \<and>
    (cluster_assemblies lib pdist assemblies n_assemblies distance_metric linkage_method
         update_block_diagonals n_method = Inl (RuntimeError lo hi) \<longleftrightarrow>
       (\<forall>n \<in> {lo..hi}. \<exists>cl. fcluster_maxclust lib lm n = Some cl \<and>
          \<not> check_seed_separation cl cum)) \<and>
    (\<forall>sim' labels plotting.
       cluster_assemblies lib pdist assemblies n_assemblies distance_metric linkage_method
         update_block_diagonals n_method = Inr (sim', labels, plotting) \<longrightarrow>
       (\<exists>n \<in> {lo..hi}. \<exists>cl. fcluster_maxclust lib lm n = Some cl \<and>
          check_seed_separation cl cum \<and> labels = map (\<lambda>c. c - 1) cl))"
proof -
  let ?run = "cluster_assemblies lib pdist assemblies n_assemblies distance_metric linkage_method
         update_block_diagonals n_method"
  have range: "set [lo..<hi + 1] = {lo..hi}"
    by auto
  have bounds: "lo = Max (set n_assemblies)" "hi = min 20 (sum_list n_assemblies)"
    using cluster_assemblies_setup_Inr [OF assms] by simp_all
  have loop: "set v = {n. lo \<le> n \<and> n \<le> hi \<and> valid_n lib lm cum n}"
    if "n_clust_loop lib lm dists cum [lo..<hi + 1] = Inr (v, s, d)" for v s d
    using n_clust_loop_valid [OF that] by auto
  have run: "?run = err_bind (cluster_assemblies_select lib lm dists cum n_method lo hi)
                      (\<lambda>n_clust. cut_clusters lib lm dists sim n_method n_clust)"
    using assms by (simp add: cluster_assemblies_def err_bind_def)
  have err: "?run = Inl (RuntimeError lo hi) \<longleftrightarrow>
       (\<forall>n \<in> {lo..hi}. \<exists>cl. fcluster_maxclust lib lm n = Some cl \<and>
          \<not> check_seed_separation cl cum)"
  proof -
    have "cut_clusters lib lm dists sim n_method n \<noteq> Inl (RuntimeError lo hi)" for n
      using cut_clusters_error [of lib lm dists sim n_method n "RuntimeError lo hi"]
      by auto
    then have "?run = Inl (RuntimeError lo hi) \<longleftrightarrow>
        cluster_assemblies_select lib lm dists cum n_method lo hi = Inl (RuntimeError lo hi)"
      unfolding run by (simp add: err_bind_Inl)
    then show ?thesis
      unfolding cluster_assemblies_select_RuntimeError range by simp
  qed
  have ok: "\<exists>n \<in> {lo..hi}. \<exists>cl. fcluster_maxclust lib lm n = Some cl \<and>
          check_seed_separation cl cum \<and> labels = map (\<lambda>c. c - 1) cl"
    if r: "?run = Inr (sim', labels, plotting)" for sim' labels plotting
  proof -
    from r obtain dists' cum' lo' hi' lm' n clusters where
        s: "cluster_assemblies_setup lib pdist assemblies n_assemblies distance_metric
              linkage_method update_block_diagonals = Inr (sim', dists', cum', lo', hi', lm')"
        and n: "n \<in> set [lo'..<hi' + 1]" "valid_n lib lm' cum' n"
        and fc: "fcluster_maxclust lib lm' n = Some clusters"
        and l: "labels = map (\<lambda>c. c - 1) clusters"
      by (rule cluster_assemblies_Inr)
    from s assms have eq: "cum' = cum" "lo' = lo" "hi' = hi" "lm' = lm"
      by simp_all
    from n(1) have "n \<in> {lo..hi}"
      unfolding eq by auto
    moreover from n(2) fc have "check_seed_separation clusters cum"
      unfolding eq by (simp add: valid_n_def)
    ultimately show ?thesis
      using fc l unfolding eq by blast
  qed
  from bounds loop err ok show ?thesis
    by blast
qed

text \<open>With the four example assemblies taken as those of a single seed, the range is the
  single count 4, whose cut puts equal assemblies together: the error is raised. Taken
  as two seeds of two, the range is 2 to 4 and the first count is chosen.\<close>

theorem cluster_assemblies_range_witness:
  "cluster_assemblies_setup example_lib example_pdist example_assemblies [4] ''hamming''
       ''average'' False
     = Inr ([[1, 0, 1, 0], [0, 1, 0, 1], [1, 0, 1, 0], [0, 1, 0, 1]],
            [[0, 1, 0, 1], [1, 0, 1, 0], [0, 1, 0, 1], [1, 0, 1, 0]], [0, 4], 4, 4, ()) \<and>
   fcluster_maxclust example_lib () 4 = Some [1, 2, 1, 2] \<and>
   \<not> check_seed_separation [1, 2, 1, 2] [0, 4] \<and>
   cluster_assemblies example_lib example_pdist example_assemblies [4] ''hamming'' ''average''
       False ''min'' = Inl (RuntimeError 4 4) \<and>
   cluster_assemblies_setup example_lib example_pdist example_assemblies [2, 2] ''hamming''
       ''average'' False
     = Inr ([[1, 0, 1, 0], [0, 1, 0, 1], [1, 0, 1, 0], [0, 1, 0, 1]],
            [[0, 1, 0, 1], [1, 0, 1, 0], [0, 1, 0, 1], [1, 0, 1, 0]], [0, 2, 4], 2, 4, ()) \<and>
   cluster_assemblies example_lib example_pdist example_assemblies [2, 2] ''hamming'' ''average''
       False ''min''
     = Inr ([[1, 0, 1, 0], [0, 1, 0, 1], [1, 0, 1, 0], [0, 1, 0, 1]], [0, 1, 0, 1], (), None) \<and>
   (\<exists>n \<in> {2..4::nat}. \<exists>cl. fcluster_maxclust example_lib () n = Some cl \<and>
      check_seed_separation cl [0, 2, 4] \<and> [0, 1, 0, 1] = map (\<lambda>c. c - 1) cl)"
proof -
  have s1: "cluster_assemblies_setup example_lib example_pdist example_assemblies [4] ''hamming''
       ''average'' False
     = Inr ([[1, 0, 1, 0], [0, 1, 0, 1], [1, 0, 1, 0], [0, 1, 0, 1]],
            [[0, 1, 0, 1], [1, 0, 1, 0], [0, 1, 0, 1], [1, 0, 1, 0]], [0, 4], 4, 4, ())"
    by code_simp
  have c: "\<not> check_seed_separation [1, 2, 1, 2] [0, 4]"
    by code_simp
  have f: "fcluster_maxclust example_lib () 4 = Some [1, 2, 1, 2]"
    by (simp add: example_lib_def)
  have h1: "\<forall>n \<in> {4..4::nat}. \<exists>cl. fcluster_maxclust example_lib () n = Some cl \<and>
      \<not> check_seed_separation cl [0, 4]"
    using c f by simp
  have r1: "cluster_assemblies example_lib example_pdist example_assemblies [4] ''hamming''
       ''average'' False ''min'' = Inl (RuntimeError 4 4)"
    using cluster_assemblies_range [OF s1, of "''min''"] h1 by blast
  have s2: "cluster_assemblies_setup example_lib example_pdist example_assemblies [2, 2]
       ''hamming'' ''average'' False
     = Inr ([[1, 0, 1, 0], [0, 1, 0, 1], [1, 0, 1, 0], [0, 1, 0, 1]],
            [[0, 1, 0, 1], [1, 0, 1, 0], [0, 1, 0, 1], [1, 0, 1, 0]], [0, 2, 4], 2, 4, ())"
    by code_simp
  have r2: "cluster_assemblies example_lib example_pdist example_assemblies [2, 2] ''hamming''
       ''average'' False ''min''
     = Inr ([[1, 0, 1, 0], [0, 1, 0, 1], [1, 0, 1, 0], [0, 1, 0, 1]], [0, 1, 0, 1], (), None)"
    by code_simp
  have h2: "\<exists>n \<in> {2..4::nat}. \<exists>cl. fcluster_maxclust example_lib () n = Some cl \<and>
      check_seed_separation cl [0, 2, 4] \<and> [0, 1, 0, 1] = map (\<lambda>c. c - 1) cl"
    using cluster_assemblies_range [OF s2, of "''min''"] r2 by blast
  from s1 f c r1 s2 r2 h2 show ?thesis
    by blast
qed

section \<open>Properties of the correlations\<close>

lemma replace_nan_no_nan: "row \<in> set (replace_nan corrs) \<Longrightarrow> None \<notin> set row"
  by (auto simp: replace_nan_def)

lemma replace_nan_one_minus:
  "replace_nan (map (map (\<lambda>d. fl2 (-) (Some 1) d)) dists)
     = map (map (\<lambda>d. case d of None \<Rightarrow> Some 0 | Some v \<Rightarrow> Some (1 - v))) dists"
  by (auto simp: replace_nan_def fl2_def split: option.splits)

lemma pairwise_correlation_X_eq:
  "pairwise_correlation_X pairwise_distances x =
     (case pairwise_distances x of
        None \<Rightarrow> Inl LibraryError
      | Some dists \<Rightarrow>
          Inr (map (map (\<lambda>d. case d of None \<Rightarrow> Some 0 | Some v \<Rightarrow> Some (1 - v))) dists))"
  by (simp add: pairwise_correlation_X_def err_bind_def lib_call_def replace_nan_one_minus
      split: option.splits)

lemma pairwise_correlation_XY_eq:
  "pairwise_correlation_XY cdist x y =
     (case cdist x y of
        None \<Rightarrow> Inl LibraryError
      | Some dists \<Rightarrow>
          Inr (map (map (\<lambda>d. case d of None \<Rightarrow> Some 0 | Some v \<Rightarrow> Some (1 - v))) dists))"
  by (simp add: pairwise_correlation_XY_def err_bind_def lib_call_def replace_nan_one_minus
      split: option.splits)

lemma pairwise_correlation_X_no_nan:
  "pairwise_correlation_X pairwise_distances x = Inr corrs \<Longrightarrow> row \<in> set corrs \<Longrightarrow> None \<notin> set row"
  by (auto simp: pairwise_correlation_X_eq split: option.splits)

lemma pairwise_correlation_XY_no_nan:
  "pairwise_correlation_XY cdist x y = Inr corrs \<Longrightarrow> row \<in> set corrs \<Longrightarrow> None \<notin> set row"
  by (auto simp: pairwise_correlation_XY_eq split: option.splits)

text \<open>
  Claim C9. The two correlation operations raise nothing of their own: they fail only
  when the library call that computes the correlation distances raises. Whatever matrix
  of distances the library returns, NaN entries included, the result is that matrix with
  \<open>1 - d\<close> for every distance \<open>d\<close> that is a number and 0 for every NaN, and no entry of
  the result is NaN.
\<close>

theorem pairwise_correlation_nan_replaced:
  "(pairwise_distances x = Some dists \<longrightarrow>
      pairwise_correlation_X pairwise_distances x
        = Inr (map (map (\<lambda>d. case d of None \<Rightarrow> Some 0 | Some v \<Rightarrow> Some (1 - v))) dists)) \<and>
   (cdist x' y' = Some dists' \<longrightarrow>
      pairwise_correlation_XY cdist x' y'
        = Inr (map (map (\<lambda>d. case d of None \<Rightarrow> Some 0 | Some v \<Rightarrow> Some (1 - v))) dists')) \<and>
   (pairwise_correlation_X pairwise_distances x = Inr corrs \<longrightarrow>
      (\<forall>row \<in> set corrs. None \<notin> set row)) \<and>
   (pairwise_correlation_XY cdist x' y' = Inr corrs' \<longrightarrow>
      (\<forall>row \<in> set corrs'. None \<notin> set row)) \<and>
   (pairwise_correlation_X pairwise_distances x = Inl e \<longrightarrow>
      pairwise_distances x = None \<and> e = LibraryError) \<and>
   (pairwise_correlation_XY cdist x' y' = Inl e' \<longrightarrow> cdist x' y' = None \<and> e' = LibraryError)"
proof (intro conjI impI ballI)
  assume "pairwise_distances x = Some dists"
  then show "pairwise_correlation_X pairwise_distances x
        = Inr (map (map (\<lambda>d. case d of None \<Rightarrow> Some 0 | Some v \<Rightarrow> Some (1 - v))) dists)"
    by (simp add: pairwise_correlation_X_eq)
next
  assume "cdist x' y' = Some dists'"
  then show "pairwise_correlation_XY cdist x' y'
        = Inr (map (map (\<lambda>d. case d of None \<Rightarrow> Some 0 | Some v \<Rightarrow> Some (1 - v))) dists')"
    by (simp add: pairwise_correlation_XY_eq)
next
  fix row assume "pairwise_correlation_X pairwise_distances x = Inr corrs" "row \<in> set corrs"
  then show "None \<notin> set row" by (rule pairwise_correlation_X_no_nan)
next
  fix row assume "pairwise_correlation_XY cdist x' y' = Inr corrs'" "row \<in> set corrs'"
  then show "None \<notin> set row" by (rule pairwise_correlation_XY_no_nan)
next
  assume "pairwise_correlation_X pairwise_distances x = Inl e"
  then show "pairwise_distances x = None" "e = LibraryError"
    by (auto simp: pairwise_correlation_X_eq split: option.splits)
next
  assume "pairwise_correlation_XY cdist x' y' = Inl e'"
  then show "cdist x' y' = None" "e' = LibraryError"
    by (auto simp: pairwise_correlation_XY_eq split: option.splits)
qed

text \<open>The example spike matrix, whose last row is constant.\<close>

theorem pairwise_correlation_nan_replaced_witness:
  "example_pairwise_distances example_spike_matrix
     = Some [[Some 0, Some 0, Some 2, None], [Some 0, Some 0, Some 2, None],
             [Some 2, Some 2, Some 0, None], [None, None, None, None]] \<and>
   pairwise_correlation_X example_pairwise_distances example_spike_matrix
     = Inr [[Some 1, Some 1, Some (- 1), Some 0], [Some 1, Some 1, Some (- 1), Some 0],
            [Some (- 1), Some (- 1), Some 1, Some 0], [Some 0, Some 0, Some 0, Some 0]] \<and>
   example_cdist example_spike_matrix [[1, 0, 1, 0], [0, 1, 0, 1]]
     = Some [[Some 0, Some 2], [Some 0, Some 2], [Some 2, Some 0], [None, None]] \<and>
   pairwise_correlation_XY example_cdist example_spike_matrix [[1, 0, 1, 0], [0, 1, 0, 1]]
     = Inr [[Some 1, Some (- 1)], [Some 1, Some (- 1)], [Some (- 1), Some 1], [Some 0, Some 0]]"
proof -
  have a: "example_pairwise_distances example_spike_matrix
     = Some [[Some 0, Some 0, Some 2, None], [Some 0, Some 0, Some 2, None],
             [Some 2, Some 2, Some 0, None], [None, None, None, None]]"
    by (simp add: example_pairwise_distances_def)
  have b: "example_cdist example_spike_matrix [[1, 0, 1, 0], [0, 1, 0, 1]]
     = Some [[Some 0, Some 2], [Some 0, Some 2], [Some 2, Some 0], [None, None]]"
    by (simp add: example_cdist_def)
  note T = pairwise_correlation_nan_replaced [of example_pairwise_distances example_spike_matrix
      _ example_cdist example_spike_matrix "[[1, 0, 1, 0], [0, 1, 0, 1]]"]
  from T [THEN conjunct1, THEN mp, OF a]
  have c: "pairwise_correlation_X example_pairwise_distances example_spike_matrix
     = Inr [[Some 1, Some 1, Some (- 1), Some 0], [Some 1, Some 1, Some (- 1), Some 0],
            [Some (- 1), Some (- 1), Some 1, Some 0], [Some 0, Some 0, Some 0, Some 0]]"
    by simp
  from T [THEN conjunct2, THEN conjunct1, THEN mp, OF b]
  have d: "pairwise_correlation_XY example_cdist example_spike_matrix [[1, 0, 1, 0], [0, 1, 0, 1]]
     = Inr [[Some 1, Some (- 1)], [Some 1, Some (- 1)], [Some (- 1), Some 1], [Some 0, Some 0]]"
    by simp
  from a c b d show ?thesis
    by simp
qed

subsection \<open>Core cells\<close>

text \<open>For labels that are exactly \<open>0, ..., k - 1\<close>, row \<open>c\<close> of the matrix of
  \<open>_convert_clusters\<close> is the indicator of the time bins of cluster \<open>c\<close>.\<close>

lemma set_rows_dense:
  assumes "length sp = k" and "j \<le> k"
  shows "set_rows clusters (map int [j..<k]) sp
           = Inr (map (\<lambda>c. if j \<le> c
                           then map2 (\<lambda>l old. if l = int c then 1 else old) clusters (sp ! c)
                           else sp ! c) [0..<k])"
  using assms
proof (induction "k - j" arbitrary: j sp)
  case 0
  then have jk: "j = k" by simp
  have "map (\<lambda>c. if j \<le> c
                           then map2 (\<lambda>l old. if l = int c then 1 else old) clusters (sp ! c)
                           else sp ! c) [0..<k] = map (\<lambda>c. sp ! c) [0..<k]"
    using jk by (intro map_cong refl) simp
  also have "\<dots> = sp"
    using "0.prems"(1) map_nth [of sp] by auto
  finally show ?case
    using jk by simp
next
  case (Suc d)
  then have jk: "j < k" by simp
  let ?sp = "sp[j := map2 (\<lambda>l old. if l = int j then 1 else old) clusters (sp ! j)]"
  have step: "set_rows clusters (map int [j..<k]) sp = set_rows clusters (map int [Suc j..<k]) ?sp"
    using jk Suc.prems by (simp add: upt_conv_Cons Let_def)
  have "d = k - Suc j" using Suc.hyps(2) by simp
  moreover have "length ?sp = k" using Suc.prems by simp
  moreover have "Suc j \<le> k" using jk by simp
  ultimately have "set_rows clusters (map int [Suc j..<k]) ?sp
           = Inr (map (\<lambda>c. if Suc j \<le> c
                           then map2 (\<lambda>l old. if l = int c then 1 else old) clusters (?sp ! c)
                           else ?sp ! c) [0..<k])"
    by (rule Suc.hyps(1))
  also have "map (\<lambda>c. if Suc j \<le> c
                           then map2 (\<lambda>l old. if l = int c then 1 else old) clusters (?sp ! c)
                           else ?sp ! c) [0..<k]
     = map (\<lambda>c. if j \<le> c
                           then map2 (\<lambda>l old. if l = int c then 1 else old) clusters (sp ! c)
                           else sp ! c) [0..<k]"
  proof (intro map_cong refl)
    fix c assume "c \<in> set [0..<k]"
    then have ck: "c < length sp" using Suc.prems by simp
    consider "c < j" | "c = j" | "j < c" by linarith
    then show "(if Suc j \<le> c
                then map2 (\<lambda>l old. if l = int c then 1 else old) clusters (?sp ! c)
                else ?sp ! c)
             = (if j \<le> c
                then map2 (\<lambda>l old. if l = int c then 1 else old) clusters (sp ! c)
                else sp ! c)"
      using ck by cases simp_all
  qed
  finally show ?case
    unfolding step .
qed

lemma sort_remdups_dense:
  assumes "set clusters = {0..<int k}"
  shows "sort (remdups clusters) = map int [0..<k]"
proof -
  have "set (map int [0..<k]) = {0..<int k}"
    by (simp add: image_int_atLeastLessThan)
  moreover have "sorted (map int [0..<k])" "distinct (map int [0..<k])"
    by (simp_all add: sorted_map distinct_map inj_on_def sorted_wrt_iff_nth_less)
  ultimately show ?thesis
    using assms by (intro sorted_distinct_set_unique) simp_all
qed

lemma convert_clusters_one_hot:
  assumes "set clusters = {0..<int k}"
  shows "convert_clusters clusters
           = Inr (map (\<lambda>c. map (\<lambda>l. if l = int c then 1 else 0) clusters) [0..<k])"
proof -
  let ?z = "replicate k (replicate (length clusters) (0::int))"
  have "map2 (\<lambda>l old. if l = int c then 1 else old) clusters (?z ! c)
          = map (\<lambda>l. if l = int c then 1 else 0) clusters" if "c < k" for c
    using that by (intro nth_equalityI) simp_all
  then have "map (\<lambda>c. if 0 \<le> c
                           then map2 (\<lambda>l old. if l = int c then 1 else old) clusters (?z ! c)
                           else ?z ! c) [0..<k]
      = map (\<lambda>c. map (\<lambda>l. if l = int c then 1 else 0) clusters) [0..<k]"
    by (intro map_cong refl) simp
  with set_rows_dense [of ?z k 0 clusters] show ?thesis
    by (simp add: convert_clusters_def sort_remdups_dense [OF assms])
qed

lemma sign_corr_ths_Inr:
  assumes "sign_corr_ths cdist percentile cpu_count perms spike_matrix sparse_clusters th_pct N
             = Inr corr_ths"
  shows "\<exists>surr. length surr = N \<and> 0 < N \<and> 0 \<le> th_pct \<and> th_pct \<le> 100 \<and>
           (\<forall>k < N. corr_shuffled_spike_matrix_clusters cdist (perms k) spike_matrix
                       sparse_clusters = Inr (surr ! k)) \<and>
           corr_ths = map (\<lambda>g. map (\<lambda>c. percentile (map (\<lambda>m. m ! g ! c) surr) th_pct)
                                   [0..<ncols (hd surr)])
                        [0..<length (hd surr)]"
proof -
  from assms have n: "\<not> (if int N < cpu_count - 1 then int N else cpu_count - 1) < 1"
    by (auto simp: sign_corr_ths_def Let_def split: if_splits)
  then have pos: "0 < N"
    by (auto split: if_splits)
  from assms n obtain surr where
      m: "err_map (\<lambda>k. corr_shuffled_spike_matrix_clusters cdist (perms k) spike_matrix
                          sparse_clusters) [0..<N] = Inr surr"
      and q: "\<not> (th_pct < 0 \<or> 100 < th_pct)"
      and c: "corr_ths = map (\<lambda>g. map (\<lambda>c. percentile (map (\<lambda>m. m ! g ! c) surr) th_pct)
                                   [0..<ncols (hd surr)])
                        [0..<length (hd surr)]"
    by (auto simp: sign_corr_ths_def Let_def err_bind_Inr split: if_splits)
  from err_map_Inr [OF m] have "length surr = N"
      "\<forall>k < N. corr_shuffled_spike_matrix_clusters cdist (perms k) spike_matrix
                       sparse_clusters = Inr (surr ! k)"
    by simp_all
  with pos q c show ?thesis
    by (intro exI [of _ surr]) simp
qed

text \<open>
  Claim C5. When the core cells are found, with \<open>corrs\<close> the correlations of the
  neurons with the rows of the indicator matrix of the clusters and \<open>surr\<close> the \<open>N\<close>
  surrogate correlation matrices (one for each drawn permutation of the time bins),
  neuron \<open>g\<close> is marked a core cell of cluster \<open>c\<close> exactly when \<open>corrs[g, c]\<close> is
  strictly greater than the \<open>th_pct\<close>-th percentile of the \<open>N\<close> surrogate values of that
  (neuron, cluster) cell; every other cell is marked 0. For cluster labels that are
  exactly \<open>0, ..., k - 1\<close> the rows of the indicator matrix are the one-hot indicators
  of the clusters.
\<close>

theorem core_cell_rule:
  assumes "core_cells cdist percentile cpu_count perms spike_matrix clusters th_pct N
             = Inr core_cell_idx"
  shows "\<exists>sparse_clusters corrs surr.
           convert_clusters clusters = Inr sparse_clusters \<and>
           (\<forall>k. set clusters = {0..<int k} \<longrightarrow>
              sparse_clusters = map (\<lambda>c. map (\<lambda>l. if l = int c then 1 else 0) clusters) [0..<k]) \<and>
           corr_spike_matrix_clusters cdist spike_matrix sparse_clusters = Inr corrs \<and>
           length surr = N \<and> 0 < N \<and>
           (\<forall>k < N. corr_shuffled_spike_matrix_clusters cdist (perms k) spike_matrix
                       sparse_clusters = Inr (surr ! k)) \<and>
           (\<forall>g < length core_cell_idx. \<forall>c < length (core_cell_idx ! g).
              (core_cell_idx ! g ! c = 1 \<longleftrightarrow>
                 fl_gt (corrs ! g ! c) (percentile (map (\<lambda>m. m ! g ! c) surr) th_pct)) \<and>
              (core_cell_idx ! g ! c = 1 \<or> core_cell_idx ! g ! c = 0))"
proof -
  from assms obtain sparse_clusters corrs corr_ths where
      s: "convert_clusters clusters = Inr sparse_clusters"
      and c: "corr_spike_matrix_clusters cdist spike_matrix sparse_clusters = Inr corrs"
      and t: "sign_corr_ths cdist percentile cpu_count perms spike_matrix sparse_clusters th_pct N
                = Inr corr_ths"
      and i: "core_cell_idx = map2 (\<lambda>row ths. map2 (\<lambda>c th. if fl_gt c th then 1 else 0) row ths)
                                corrs corr_ths"
    by (auto simp: core_cells_def err_bind_Inr)
  from sign_corr_ths_Inr [OF t] obtain surr where
      l: "length surr = N" "0 < N"
      and k: "\<forall>k < N. corr_shuffled_spike_matrix_clusters cdist (perms k) spike_matrix
                       sparse_clusters = Inr (surr ! k)"
      and ths: "corr_ths = map (\<lambda>g. map (\<lambda>c. percentile (map (\<lambda>m. m ! g ! c) surr) th_pct)
                                   [0..<ncols (hd surr)])
                        [0..<length (hd surr)]"
    by blast
  have cell: "(core_cell_idx ! g ! c = 1 \<longleftrightarrow>
                 fl_gt (corrs ! g ! c) (percentile (map (\<lambda>m. m ! g ! c) surr) th_pct)) \<and>
              (core_cell_idx ! g ! c = 1 \<or> core_cell_idx ! g ! c = 0)"
    if g: "g < length core_cell_idx" and cc: "c < length (core_cell_idx ! g)" for g c
  proof -
    from g have g1: "g < length corrs" "g < length corr_ths"
      by (simp_all add: i)
    then have row: "core_cell_idx ! g
        = map2 (\<lambda>c th. if fl_gt c th then 1 else 0) (corrs ! g) (corr_ths ! g)"
      by (simp add: i)
    from g1(2) have tg: "corr_ths ! g = map (\<lambda>c. percentile (map (\<lambda>m. m ! g ! c) surr) th_pct)
                                   [0..<ncols (hd surr)]"
      by (simp add: ths)
    from cc row have c1: "c < length (corrs ! g)" "c < length (corr_ths ! g)"
      by simp_all
    then have "core_cell_idx ! g ! c = (if fl_gt (corrs ! g ! c) (corr_ths ! g ! c) then 1 else 0)"
      by (simp add: row)
    moreover from c1(2) have "corr_ths ! g ! c = percentile (map (\<lambda>m. m ! g ! c) surr) th_pct"
      by (simp add: tg)
    ultimately show ?thesis by simp
  qed
  have hot: "\<forall>k. set clusters = {0..<int k} \<longrightarrow>
              sparse_clusters = map (\<lambda>c. map (\<lambda>l. if l = int c then 1 else 0) clusters) [0..<k]"
    using s convert_clusters_one_hot [of clusters] by auto
  from s hot c l k cell show ?thesis
    by blast
qed

text \<open>The example, with five surrogates: the thresholds are 0 for the neurons 0 to 2 and
  the correlations of the constant neuron 3 are 0, so that it is a core cell of no
  cluster.\<close>

theorem core_cell_rule_witness:
  "core_cells example_cdist example_percentile 8 (\<lambda>k. [0, 1, 3, 2]) example_spike_matrix
       [0, 1, 0, 1] 95 5
     = Inr [[1, 0], [1, 0], [0, 1], [0, 0]] \<and>
   set [0, 1, 0, 1 :: int] = {0..<int 2} \<and>
   (\<exists>sparse_clusters corrs surr.
      convert_clusters [0, 1, 0, 1] = Inr sparse_clusters \<and>
      sparse_clusters = map (\<lambda>c. map (\<lambda>l. if l = int c then 1 else 0) [0, 1, 0, 1]) [0..<2] \<and>
      corr_spike_matrix_clusters example_cdist example_spike_matrix sparse_clusters = Inr corrs \<and>
      length surr = (5 :: nat) \<and>
      ([[1, 0], [1, 0], [0, 1], [0, 0 :: int]] ! 2 ! 1 = 1 \<longleftrightarrow>
         fl_gt (corrs ! 2 ! 1) (example_percentile (map (\<lambda>m. m ! 2 ! 1) surr) 95)))"
proof -
  have h: "core_cells example_cdist example_percentile 8 (\<lambda>k. [0, 1, 3, 2]) example_spike_matrix
       [0, 1, 0, 1] 95 5
     = Inr [[1, 0], [1, 0], [0, 1], [0, 0]]"
    by code_simp
  have d: "set [0, 1, 0, 1 :: int] = {0..<int 2}"
    by auto
  from core_cell_rule [OF h] obtain sparse_clusters corrs surr where
      hot: "\<forall>k. set [0, 1, 0, 1 :: int] = {0..<int k} \<longrightarrow>
              sparse_clusters = map (\<lambda>c. map (\<lambda>l. if l = int c then 1 else 0) [0, 1, 0, 1]) [0..<k]"
      and a: "convert_clusters [0, 1, 0, 1] = Inr sparse_clusters"
         "corr_spike_matrix_clusters example_cdist example_spike_matrix sparse_clusters = Inr corrs"
         "length surr = 5"
      and b: "\<forall>g < length [[1, 0], [1, 0], [0, 1], [0, 0 :: int]].
              \<forall>c < length ([[1, 0], [1, 0], [0, 1], [0, 0 :: int]] ! g).
              ([[1, 0], [1, 0], [0, 1], [0, 0 :: int]] ! g ! c = 1 \<longleftrightarrow>
                 fl_gt (corrs ! g ! c) (example_percentile (map (\<lambda>m. m ! g ! c) surr) 95)) \<and>
              ([[1, 0], [1, 0], [0, 1], [0, 0 :: int]] ! g ! c = 1 \<or>
               [[1, 0], [1, 0], [0, 1], [0, 0 :: int]] ! g ! c = 0)"
    by blast
  from b [rule_format, of 2 1]
  have "[[1, 0], [1, 0], [0, 1], [0, 0 :: int]] ! 2 ! 1 = 1 \<longleftrightarrow>
         fl_gt (corrs ! 2 ! 1) (example_percentile (map (\<lambda>m. m ! 2 ! 1) surr) 95)"
    by simp
  moreover from hot d
  have "sparse_clusters = map (\<lambda>c. map (\<lambda>l. if l = int c then 1 else 0) [0, 1, 0, 1]) [0..<2]"
    by blast
  ultimately show ?thesis
    using a h d by blast
qed

subsection \<open>Promotion of a cluster to an assembly\<close>

lemma take_idx_Inr_iff:
  "take_idx xs idx = Inr ys \<longleftrightarrow> (\<forall>q \<in> set idx. q < length xs) \<and> ys = map (\<lambda>q. xs ! q) idx"
  by (auto simp: take_idx_def list_all_iff)

lemma err_map_take_idx:
  "err_map (\<lambda>row. take_idx row idx) rows = Inr sub \<longleftrightarrow>
     (\<forall>row \<in> set rows. \<forall>q \<in> set idx. q < length row) \<and>
     sub = map (\<lambda>row. map (\<lambda>q. row ! q) idx) rows"
proof (induction rows arbitrary: sub)
  case Nil
  then show ?case by auto
next
  case (Cons row rows)
  show ?case
    by (auto simp: err_bind_Inr Cons.IH take_idx_Inr_iff)
qed

lemma ix_Inr:
  "ix m idx = Inr sub \<longleftrightarrow>
     (\<forall>p \<in> set idx. p < length m \<and> (\<forall>q \<in> set idx. q < length (m ! p))) \<and>
     sub = map (\<lambda>p. map (\<lambda>q. m ! p ! q) idx) idx"
  by (auto simp: ix_def err_bind_Inr err_map_take_idx take_idx_Inr_iff comp_def)

lemma fill_diagonal_nth:
  "p < length m \<Longrightarrow> fill_diagonal v m ! p = (m ! p)[p := v]"
  by (simp add: fill_diagonal_def nth_enumerate_eq)

lemma length_fill_diagonal: "length (fill_diagonal v m) = length m"
  by (simp add: fill_diagonal_def)

text \<open>The entries that \<open>np.nanmean\<close> keeps in a row whose entry at \<open>p\<close> is NaN.\<close>

lemma kept_entries:
  assumes "\<forall>q \<in> set ys. p \<noteq> q \<longrightarrow> f q \<noteq> None"
  shows "map the (filter (\<lambda>x. x \<noteq> None) (map (\<lambda>q. if p = q then None else f q) ys))
           = concat (map (\<lambda>q. if p \<noteq> q then [the (f q)] else []) ys)"
  using assms by (induction ys) auto

lemma nanmean_sub:
  assumes "\<forall>p \<in> set idx. \<forall>q \<in> set idx. p \<noteq> q \<longrightarrow> f p q \<noteq> None"
  shows "np_nanmean (concat (map (\<lambda>p. map (\<lambda>q. if p = q then None else f p q) idx) idx))
           = np_mean (concat (map (\<lambda>p. concat (map (\<lambda>q. if p \<noteq> q then [the (f p q)] else [])
                                                  idx)) idx))"
proof -
  have "map (\<lambda>p. map the (filter (\<lambda>x. x \<noteq> None) (map (\<lambda>q. if p = q then None else f p q) idx))) idx
          = map (\<lambda>p. concat (map (\<lambda>q. if p \<noteq> q then [the (f p q)] else []) idx)) idx"
    using assms by (intro map_cong refl kept_entries) blast
  then show ?thesis
    unfolding np_nanmean_def by (simp only: filter_concat map_concat map_map o_def)
qed

lemma update_as_map: "xs[p := v] = map (\<lambda>q. if p = q then v else xs ! q) [0..<length xs]"
  by (rule nth_equalityI) auto

lemma fill_diagonal_as_map:
  "fill_diagonal v m = map (\<lambda>p. map (\<lambda>q. if p = q then v else m ! p ! q) [0..<length (m ! p)])
                         [0..<length m]"
  by (rule nth_equalityI) (simp_all add: length_fill_diagonal fill_diagonal_nth update_as_map)

lemma nanmean_all:
  assumes "\<forall>row \<in> set corrs. None \<notin> set row"
  shows "np_nanmean (concat (fill_diagonal None corrs)) = mean_all_pairs corrs"
proof -
  have nn: "corrs ! p ! q \<noteq> None" if "p < length corrs" "q < length (corrs ! p)" for p q
    using assms that by (metis nth_mem)
  have "map (\<lambda>p. map the (filter (\<lambda>x. x \<noteq> None)
               (map (\<lambda>q. if p = q then None else corrs ! p ! q) [0..<length (corrs ! p)])))
          [0..<length corrs]
      = map (\<lambda>p. concat (map (\<lambda>q. if p \<noteq> q then [the (corrs ! p ! q)] else [])
                            [0..<length (corrs ! p)])) [0..<length corrs]"
    by (intro map_cong refl kept_entries) (simp add: nn)
  then show ?thesis
    unfolding np_nanmean_def mean_all_pairs_def fill_diagonal_as_map [of None corrs]
    by (simp only: filter_concat map_concat map_map o_def)
qed

lemma within_loop_Inr:
  assumes "within_loop corrs mean_corr core_cell_idx is = Inr assembly_idx"
  shows "(\<forall>i \<in> set is. ix corrs (core_idx core_cell_idx i)
             = Inr (map (\<lambda>p. map (\<lambda>q. corrs ! p ! q) (core_idx core_cell_idx i))
                      (core_idx core_cell_idx i))) \<and>
         assembly_idx = filter (\<lambda>i. fl_gt (np_nanmean (concat
             (map (\<lambda>p. map (\<lambda>q. corrs ! p ! q) (core_idx core_cell_idx i))
                (core_idx core_cell_idx i)))) mean_corr) is"
  using assms
proof (induction "is" arbitrary: assembly_idx)
  case Nil
  then show ?case by simp
next
  case (Cons i "is")
  from Cons.prems obtain sub rest where
      s: "ix corrs (core_idx core_cell_idx i) = Inr sub"
      and r: "within_loop corrs mean_corr core_cell_idx is = Inr rest"
      and a: "assembly_idx = (if fl_gt (np_nanmean (concat sub)) mean_corr then i # rest else rest)"
    by (auto simp: Let_def err_bind_Inr)
  from s have sub: "sub = map (\<lambda>p. map (\<lambda>q. corrs ! p ! q) (core_idx core_cell_idx i))
                            (core_idx core_cell_idx i)"
    by (simp add: ix_Inr)
  from Cons.IH [OF r] s sub a show ?case
    by simp
qed

lemma within_cluster_correlations_mem:
  assumes c: "pairwise_correlation_X pairwise_distances spike_matrix = Inr corrs"
    and w: "within_cluster_correlations pairwise_distances spike_matrix core_cell_idx
              = Inr assembly_idx"
  shows "i \<in> set assembly_idx \<longleftrightarrow>
           i < ncols core_cell_idx \<and>
           fl_gt (mean_pairwise corrs (core_idx core_cell_idx i)) (mean_all_pairs corrs)"
    and "sorted assembly_idx" and "distinct assembly_idx"
proof -
  let ?m = "fill_diagonal None corrs"
  let ?sub = "\<lambda>i. map (\<lambda>p. map (\<lambda>q. ?m ! p ! q) (core_idx core_cell_idx i))
                     (core_idx core_cell_idx i)"
  have nn: "\<forall>row \<in> set corrs. None \<notin> set row"
    using pairwise_correlation_X_no_nan [OF c] by blast
  from w c have loop: "within_loop ?m (np_nanmean (concat ?m)) core_cell_idx
                         [0..<ncols core_cell_idx] = Inr assembly_idx"
    by (simp add: within_cluster_correlations_def err_bind_def Let_def)
  from within_loop_Inr [OF loop] have
      ok: "\<forall>i \<in> set [0..<ncols core_cell_idx]. ix ?m (core_idx core_cell_idx i) = Inr (?sub i)"
      and a: "assembly_idx = filter (\<lambda>i. fl_gt (np_nanmean (concat (?sub i)))
                  (np_nanmean (concat ?m))) [0..<ncols core_cell_idx]"
    by blast+
  show "sorted assembly_idx"
    by (subst a) (rule sorted_wrt_filter, simp)
  show "distinct assembly_idx"
    by (subst a) simp
  have mean: "np_nanmean (concat (?sub i)) = mean_pairwise corrs (core_idx core_cell_idx i)"
    if i: "i < ncols core_cell_idx" for i
  proof -
    let ?idx = "core_idx core_cell_idx i"
    from ok i have "ix ?m ?idx = Inr (?sub i)" by simp
    then have "\<forall>p \<in> set ?idx. p < length corrs \<and> (\<forall>q \<in> set ?idx. q < length (?m ! p))"
      by (simp add: ix_Inr length_fill_diagonal)
    then have b: "\<forall>p \<in> set ?idx. p < length corrs \<and> (\<forall>q \<in> set ?idx. q < length (corrs ! p))"
      by (auto simp: fill_diagonal_nth)
    then have e: "?m ! p ! q = (if p = q then None else corrs ! p ! q)"
      if "p \<in> set ?idx" "q \<in> set ?idx" for p q
      using that by (simp add: fill_diagonal_nth)
    have s: "?sub i = map (\<lambda>p. map (\<lambda>q. if p = q then None else corrs ! p ! q) ?idx) ?idx"
      by (intro map_cong refl) (simp add: e)
    have "\<forall>p \<in> set ?idx. \<forall>q \<in> set ?idx. p \<noteq> q \<longrightarrow> corrs ! p ! q \<noteq> None"
      using b nn by (metis nth_mem)
    then show ?thesis
      unfolding s mean_pairwise_def by (rule nanmean_sub)
  qed
  show "i \<in> set assembly_idx \<longleftrightarrow>
           i < ncols core_cell_idx \<and>
           fl_gt (mean_pairwise corrs (core_idx core_cell_idx i)) (mean_all_pairs corrs)"
    using mean [of i] nanmean_all [OF nn] by (subst a) auto
qed

text \<open>
  Claim C4. When the detection returns for a seed, the assemblies it emits are those of
  the clusters in \<open>assembly_idx\<close>, each with the gids of its core cells, and cluster
  \<open>i\<close> has an assembly exactly when the mean of the correlations between two different
  core cells of \<open>i\<close> is strictly greater than the mean of the correlations between two
  different neurons of the spike matrix. A mean over no pair (fewer than two core cells)
  is NaN, and the comparison with NaN is false: such a cluster has no assembly.
\<close>

theorem assembly_promotion_rule:
  assumes "detect_assemblies_seed cdist percentile pairwise_distances cpu_count perms seed
             spike_matrix gids clusters core_cell_th_pct N = Inr assemblies"
  shows "\<exists>core_cell_idx corrs assembly_idx.
           core_cells cdist percentile cpu_count perms spike_matrix clusters core_cell_th_pct N
             = Inr core_cell_idx \<and>
           pairwise_correlation_X pairwise_distances spike_matrix = Inr corrs \<and>
           within_cluster_correlations pairwise_distances spike_matrix core_cell_idx
             = Inr assembly_idx \<and>
           assemblies = map (\<lambda>i. \<lparr>assembly_gids = map (\<lambda>g. gids ! g) (core_idx core_cell_idx i),
                                    assembly_index = (i, seed)\<rparr>) assembly_idx \<and>
           distinct assembly_idx \<and>
           (\<forall>i. (i, seed) \<in> set (map assembly_index assemblies) \<longleftrightarrow>
                  i < ncols core_cell_idx \<and>
                  fl_gt (mean_pairwise corrs (core_idx core_cell_idx i)) (mean_all_pairs corrs))"
proof -
  from assms obtain core_cell_idx assembly_idx where
      cc: "core_cells cdist percentile cpu_count perms spike_matrix clusters core_cell_th_pct N
             = Inr core_cell_idx"
      and w: "within_cluster_correlations pairwise_distances spike_matrix core_cell_idx
             = Inr assembly_idx"
      and a: "assemblies = map (\<lambda>i. \<lparr>assembly_gids = map (\<lambda>g. gids ! g) (core_idx core_cell_idx i),
                                    assembly_index = (i, seed)\<rparr>) assembly_idx"
    by (auto simp: detect_assemblies_seed_def err_bind_Inr split: if_splits)
  from w obtain corrs where c: "pairwise_correlation_X pairwise_distances spike_matrix = Inr corrs"
    by (auto simp: within_cluster_correlations_def err_bind_Inr)
  have "map assembly_index assemblies = map (\<lambda>i. (i, seed)) assembly_idx"
    by (simp add: a comp_def)
  then have "(i, seed) \<in> set (map assembly_index assemblies) \<longleftrightarrow> i \<in> set assembly_idx" for i
    by auto
  with within_cluster_correlations_mem [OF c w] cc c w a show ?thesis
    by blast
qed

text \<open>The example, with five surrogates: cluster 0 has the core cells 0 and 1, whose
  correlation 1 is above the overall mean \<open>-1/6\<close>; cluster 1 has the single core cell 2
  and no assembly.\<close>

theorem assembly_promotion_rule_witness:
  "detect_assemblies_seed example_cdist example_percentile example_pairwise_distances 8
       (\<lambda>k. [0, 1, 3, 2]) 7 example_spike_matrix [10, 11, 12, 13] [0, 1, 0, 1] 95 5
     = Inr [\<lparr>assembly_gids = [10, 11], assembly_index = (0, 7)\<rparr>] \<and>
   mean_pairwise [[Some 1, Some 1, Some (- 1), Some 0], [Some 1, Some 1, Some (- 1), Some 0],
                  [Some (- 1), Some (- 1), Some 1, Some 0], [Some 0, Some 0, Some 0, Some 0 :: rat float]]
       (core_idx [[1, 0], [1, 0], [0, 1], [0, 0]] 0) = Some 1 \<and>
   mean_pairwise [[Some 1, Some 1, Some (- 1), Some 0], [Some 1, Some 1, Some (- 1), Some 0],
                  [Some (- 1), Some (- 1), Some 1, Some 0], [Some 0, Some 0, Some 0, Some 0 :: rat float]]
       (core_idx [[1, 0], [1, 0], [0, 1], [0, 0]] 1) = None \<and>
   mean_all_pairs [[Some 1, Some 1, Some (- 1), Some 0], [Some 1, Some 1, Some (- 1), Some 0],
                   [Some (- 1), Some (- 1), Some 1, Some 0], [Some 0, Some 0, Some 0, Some 0 :: rat float]]
     = Some (- 1 / 6) \<and>
   (\<exists>core_cell_idx corrs.
      pairwise_correlation_X example_pairwise_distances example_spike_matrix = Inr corrs \<and>
      0 < ncols core_cell_idx \<and>
      fl_gt (mean_pairwise corrs (core_idx core_cell_idx 0)) (mean_all_pairs corrs) \<and>
      \<not> (1 < ncols core_cell_idx \<and>
         fl_gt (mean_pairwise corrs (core_idx core_cell_idx 1)) (mean_all_pairs corrs)))"
proof -
  have h: "detect_assemblies_seed example_cdist example_percentile example_pairwise_distances 8
       (\<lambda>k. [0, 1, 3, 2]) 7 example_spike_matrix [10, 11, 12, 13] [0, 1, 0, 1] 95 5
     = Inr [\<lparr>assembly_gids = [10, 11], assembly_index = (0, 7)\<rparr>]"
    by code_simp
  have m0: "mean_pairwise [[Some 1, Some 1, Some (- 1), Some 0], [Some 1, Some 1, Some (- 1), Some 0],
                  [Some (- 1), Some (- 1), Some 1, Some 0], [Some 0, Some 0, Some 0, Some 0 :: rat float]]
       (core_idx [[1, 0], [1, 0], [0, 1], [0, 0]] 0) = Some 1"
    by code_simp
  have m1: "mean_pairwise [[Some 1, Some 1, Some (- 1), Some 0], [Some 1, Some 1, Some (- 1), Some 0],
                  [Some (- 1), Some (- 1), Some 1, Some 0], [Some 0, Some 0, Some 0, Some 0 :: rat float]]
       (core_idx [[1, 0], [1, 0], [0, 1], [0, 0]] 1) = None"
    by code_simp
  have ma: "mean_all_pairs [[Some 1, Some 1, Some (- 1), Some 0], [Some 1, Some 1, Some (- 1), Some 0],
                   [Some (- 1), Some (- 1), Some 1, Some 0], [Some 0, Some 0, Some 0, Some 0 :: rat float]]
     = Some (- 1 / 6)"
    by code_simp
  from assembly_promotion_rule [OF h] obtain core_cell_idx corrs where
      c: "pairwise_correlation_X example_pairwise_distances example_spike_matrix = Inr corrs"
      and r: "\<forall>i. (i, 7) \<in> set (map assembly_index
                    [\<lparr>assembly_gids = [10, 11], assembly_index = (0, 7)\<rparr>]) \<longleftrightarrow>
                  i < ncols core_cell_idx \<and>
                  fl_gt (mean_pairwise corrs (core_idx core_cell_idx i)) (mean_all_pairs corrs)"
    by blast
  from r [rule_format, of 0] have r0: "0 < ncols core_cell_idx"
      "fl_gt (mean_pairwise corrs (core_idx core_cell_idx 0)) (mean_all_pairs corrs)"
    by simp_all
  from r [rule_format, of 1] have r1: "\<not> (1 < ncols core_cell_idx \<and>
         fl_gt (mean_pairwise corrs (core_idx core_cell_idx 1)) (mean_all_pairs corrs))"
    by simp
  from c r0 r1 have "\<exists>core_cell_idx corrs.
      pairwise_correlation_X example_pairwise_distances example_spike_matrix = Inr corrs \<and>
      0 < ncols core_cell_idx \<and>
      fl_gt (mean_pairwise corrs (core_idx core_cell_idx 0)) (mean_all_pairs corrs) \<and>
      \<not> (1 < ncols core_cell_idx \<and>
         fl_gt (mean_pairwise corrs (core_idx core_cell_idx 1)) (mean_all_pairs corrs))"
    by blast
  with h m0 m1 ma show ?thesis
    by blast
qed

end
